theory Spec2Isabelle
  imports Main
begin

section \<open>Values, errors and the external collaborators of growl.py\<close>

text \<open>
  growl.py is Python 2. Its contexts are dictionaries whose values come from the YAML
  decoder and from the program itself. The values modelled are None, integers, strings,
  lists, dictionaries (an association list in iteration order) and
  \<open>datetime.datetime(y, m, d)\<close>. Booleans and floats are left out, so equality of
  constructors is Python's equality of dictionary keys.
\<close>

datatype pyval =
    VNone
  | VInt int
  | VStr string
  | VList "pyval list"
  | VDict "(pyval \<times> pyval) list"
  | VDate int int int

text \<open>Every exception the modelled code can raise is a value.\<close>

datatype error =
    KeyError string
  | TypeError
  | ValueError
  | IOError
  | YAMLError
  | TemplateError

type_synonym "context" = "pyval \<rightharpoonup> pyval"

fun hashable :: "pyval \<Rightarrow> bool" where
  "hashable (VList xs) = False"
| "hashable (VDict kvs) = False"
| "hashable v = True"

subsection \<open>Strings: \<open>str.split\<close>, \<open>str.strip\<close>, \<open>int\<close>\<close>

definition is_space :: "char \<Rightarrow> bool" where
  "is_space c =
     (c = CHR '' '' \<or> c = CHR 0x09 \<or> c = CHR 0x0A \<or> c = CHR 0x0B \<or> c = CHR 0x0C \<or> c = CHR 0x0D)"

text \<open>\<open>s.split(sep, n)\<close> for a one-character separator: at most \<open>n\<close> splits, from the left.\<close>

fun split_max :: "char \<Rightarrow> nat \<Rightarrow> string \<Rightarrow> string list" where
  "split_max sep 0 s = [s]"
| "split_max sep (Suc n) s =
     (if sep \<in> set s
      then takeWhile (\<lambda>c. c \<noteq> sep) s # split_max sep n (tl (dropWhile (\<lambda>c. c \<noteq> sep) s))
      else [s])"

text \<open>\<open>s.split(sep)\<close>: no limit; a string has at most \<open>len(s)\<close> separators.\<close>

definition split :: "char \<Rightarrow> string \<Rightarrow> string list" where
  "split sep s = split_max sep (length s) s"

definition strip :: "string \<Rightarrow> string" where
  "strip s = rev (dropWhile is_space (rev (dropWhile is_space s)))"

definition is_digit :: "char \<Rightarrow> bool" where
  "is_digit c = (48 \<le> (of_char c :: nat) \<and> (of_char c :: nat) \<le> 57)"

definition digit_val :: "char \<Rightarrow> int" where
  "digit_val c = int (of_char c :: nat) - 48"

definition digits_val :: "string \<Rightarrow> int option" where
  "digits_val s =
     (if s \<noteq> [] \<and> list_all is_digit s
      then Some (foldl (\<lambda>n c. 10 * n + digit_val c) 0 s) else None)"

text \<open>
  \<open>int(s)\<close> on a string, base 10: surrounding whitespace is dropped, one sign is
  allowed, then at least one digit and nothing else. \<open>None\<close> is the ValueError.
\<close>

definition py_int :: "string \<Rightarrow> int option" where
  "py_int s =
     (case strip s of
        [] \<Rightarrow> None
      | c # cs \<Rightarrow>
          if c = CHR ''-'' then map_option uminus (digits_val cs)
          else if c = CHR ''+'' then digits_val cs
          else digits_val (c # cs))"

subsection \<open>\<open>datetime.datetime\<close>\<close>

definition is_leap :: "int \<Rightarrow> bool" where
  "is_leap y = (y mod 4 = 0 \<and> (y mod 400 = 0 \<or> y mod 100 \<noteq> 0))"

definition days_in_month :: "int \<Rightarrow> int \<Rightarrow> int" where
  "days_in_month y m =
     (if m = 2 then (if is_leap y then 29 else 28)
      else if m = 4 \<or> m = 6 \<or> m = 9 \<or> m = 11 then 30 else 31)"

definition valid_date :: "int \<Rightarrow> int \<Rightarrow> int \<Rightarrow> bool" where
  "valid_date y m d =
     (1 \<le> y \<and> y \<le> 9999 \<and> 1 \<le> m \<and> m \<le> 12 \<and> 1 \<le> d \<and> d \<le> days_in_month y m)"

text \<open>The constructor raises ValueError outside the calendar (MINYEAR = 1, MAXYEAR = 9999).\<close>

definition datetime :: "int \<Rightarrow> int \<Rightarrow> int \<Rightarrow> error + pyval" where
  "datetime y m d = (if valid_date y m d then Inr (VDate y m d) else Inl ValueError)"

subsection \<open>\<open>os.path\<close> (posixpath)\<close>

definition basename :: "string \<Rightarrow> string" where
  "basename p = rev (takeWhile (\<lambda>c. c \<noteq> CHR ''/'') (rev p))"

text \<open>
  \<open>splitext\<close>: the extension starts at the last dot of the last path component, unless
  only dots come before it in that component.
\<close>

definition splitext :: "string \<Rightarrow> string \<times> string" where
  "splitext p =
     (let name = basename p;
          ext = rev (takeWhile (\<lambda>c. c \<noteq> CHR ''.'') (rev name));
          stem = take (length name - Suc (length ext)) name
      in if CHR ''.'' \<in> set name \<and> list_ex (\<lambda>c. c \<noteq> CHR ''.'') stem
         then (take (length p - Suc (length ext)) p, CHR ''.'' # ext)
         else (p, []))"

text \<open>One step of the loop of \<open>posixpath.join\<close>, and the loop.\<close>

definition join2 :: "string \<Rightarrow> string \<Rightarrow> string" where
  "join2 path b =
     (if take 1 b = ''/'' then b
      else if path = [] \<or> (path \<noteq> [] \<and> last path = CHR ''/'') then path @ b
      else path @ ''/'' @ b)"

definition os_path_join :: "string \<Rightarrow> string list \<Rightarrow> string" where
  "os_path_join a ps = foldl join2 a ps"

subsection \<open>The environment: files, YAML decoder, transformers, template engine\<close>

text \<open>
  The file system, \<open>yaml.load\<close>, the registered transformers and
  \<open>jinja2.Template(src).render(ctx)\<close> are not code of growl.py. They are parameters,
  each one free to fail.
\<close>

record env =
  read_file :: "string \<Rightarrow> error + string"
  yaml_load :: "string \<Rightarrow> error + pyval"
  transformers :: "string \<rightharpoonup> (string \<Rightarrow> error + string)"
  render_template :: "string \<Rightarrow> context \<Rightarrow> error + string"

section \<open>Template\<close>

record Layout =
  l_name :: string
  l_content :: string
  l_context :: "context"

record Template =
  DEPLOY_DIR :: string
  filename :: string
  layouts :: "string \<rightharpoonup> Layout"
  ctx_of :: "context"
  content :: string

subsection \<open>\<open>RE_YAML\<close> and \<open>read_yaml\<close>\<close>

text \<open>
  \<open>RE_YAML = (^---\s*$(?P<yaml>.*?)^---\s*$)?(?P<content>.*)\<close> with MULTILINE and
  DOTALL, matched at position 0. With MULTILINE, \<open>^\<close> holds at 0 and after a newline,
  \<open>$\<close> holds at the end and before a newline.
\<close>

definition at_bol :: "string \<Rightarrow> nat \<Rightarrow> bool" where
  "at_bol t p = (p = 0 \<or> (0 < p \<and> p \<le> length t \<and> t ! (p - 1) = CHR 0x0A))"

definition at_eol :: "string \<Rightarrow> nat \<Rightarrow> bool" where
  "at_eol t p = (p = length t \<or> (p < length t \<and> t ! p = CHR 0x0A))"

text \<open>
  The ends of \<open>^---\s*$\<close> started at \<open>p\<close>, in the order the backtracking matcher tries
  them: \<open>\s*\<close> is greedy, so the longest run of whitespace first.
\<close>

definition marker_ends :: "string \<Rightarrow> nat \<Rightarrow> nat list" where
  "marker_ends t p =
     (if at_bol t p \<and> take 3 (drop p t) = ''---''
      then filter (at_eol t)
             (rev [p + 3 ..< Suc (p + 3 + length (takeWhile is_space (drop (p + 3) t)))])
      else [])"

text \<open>
  All the ways the optional group matches, in the matcher's order: the end \<open>q1\<close> of the
  first marker, then the lazy \<open>yaml\<close> group from \<open>q1\<close> to \<open>p2\<close> (shortest first), then
  the end \<open>q2\<close> of the second marker. The group \<open>content\<close> takes all the rest, so the
  first way is the match.
\<close>

definition RE_YAML_groups :: "string \<Rightarrow> (nat \<times> nat \<times> nat) list" where
  "RE_YAML_groups t =
     [(q1, p2, q2). q1 \<leftarrow> marker_ends t 0, p2 \<leftarrow> [q1 ..< Suc (length t)], q2 \<leftarrow> marker_ends t p2]"

text \<open>The groups \<open>yaml\<close> (None when the optional group did not take part) and \<open>content\<close>.\<close>

definition RE_YAML_match :: "string \<Rightarrow> string option \<times> string" where
  "RE_YAML_match t =
     (case RE_YAML_groups t of
        [] \<Rightarrow> (None, t)
      | (q1, p2, q2) # _ \<Rightarrow> (Some (take (p2 - q1) (drop q1 t)), drop q2 t))"

text \<open>
  \<open>dict.update(other)\<close>: a dictionary is merged; any other value is iterated as a
  sequence of pairs, each of them a sequence of length two.
\<close>

fun update_pair :: "context \<Rightarrow> pyval \<Rightarrow> error + context" where
  "update_pair c (VList [k, v]) = (if hashable k then Inr (c(k \<mapsto> v)) else Inl TypeError)"
| "update_pair c (VList xs) = Inl ValueError"
| "update_pair c (VStr [a, b]) = Inr (c(VStr [a] \<mapsto> VStr [b]))"
| "update_pair c (VStr s) = Inl ValueError"
| "update_pair c (VDict [(k1, v1), (k2, v2)]) = Inr (c(k1 \<mapsto> k2))"
| "update_pair c (VDict kvs) = Inl ValueError"
| "update_pair c v = Inl TypeError"

fun update_pairs :: "context \<Rightarrow> pyval list \<Rightarrow> error + context" where
  "update_pairs c [] = Inr c"
| "update_pairs c (x # xs) =
     (case update_pair c x of Inl e \<Rightarrow> Inl e | Inr c' \<Rightarrow> update_pairs c' xs)"

fun dict_update :: "context \<Rightarrow> pyval \<Rightarrow> error + context" where
  "dict_update c (VDict kvs) = Inr (foldl (\<lambda>m (k, v). m(k \<mapsto> v)) c kvs)"
| "dict_update c (VList xs) = update_pairs c xs"
| "dict_update c (VStr s) = update_pairs c (map (\<lambda>ch. VStr [ch]) s)"
| "dict_update c v = Inl TypeError"

text \<open>
  \<open>read_yaml\<close> reads the file, matches \<open>RE_YAML\<close> and, when the group \<open>yaml\<close> is
  truthy (matched and not empty), merges the decoded block into the context and keeps the
  group \<open>content\<close>. It returns the new context and content.
\<close>

definition read_yaml :: "env \<Rightarrow> string \<Rightarrow> context \<Rightarrow> error + (context \<times> string)" where
  "read_yaml E fname c =
     (case read_file E fname of
        Inl e \<Rightarrow> Inl e
      | Inr text \<Rightarrow>
          (case RE_YAML_match text of
             (Some y, body) \<Rightarrow>
               if y \<noteq> [] then
                 (case yaml_load E y of
                    Inl e \<Rightarrow> Inl e
                  | Inr v \<Rightarrow>
                      (case dict_update c v of
                         Inl e \<Rightarrow> Inl e
                       | Inr c' \<Rightarrow> Inr (c', body)))
               else Inr (c, text)
           | (None, body) \<Rightarrow> Inr (c, text)))"

text \<open>\<open>Template.__init__\<close>: the context is a copy of the caller's, then \<open>read_yaml\<close>.\<close>

definition Template_init ::
  "env \<Rightarrow> string \<Rightarrow> string \<Rightarrow> (string \<rightharpoonup> Layout) \<Rightarrow> context \<Rightarrow> error + Template" where
  "Template_init E deploy fname ls c =
     (case read_yaml E fname c of
        Inl e \<Rightarrow> Inl e
      | Inr (c', body) \<Rightarrow>
          Inr \<lparr>DEPLOY_DIR = deploy, filename = fname, layouts = ls, ctx_of = c', content = body\<rparr>)"

subsection \<open>\<open>transform\<close>, \<open>render\<close> and \<open>layout\<close>\<close>

definition transform :: "env \<Rightarrow> string \<Rightarrow> string \<Rightarrow> error + string" where
  "transform E fname body =
     (case transformers E (drop 1 (snd (splitext fname))) of
        None \<Rightarrow> Inr body
      | Some t \<Rightarrow> t body)"

text \<open>
  \<open>self.layouts.get(v)\<close>: the keys of the layout mapping are layout names (strings);
  a list or a dictionary is unhashable and the lookup raises TypeError.
\<close>

definition layouts_get :: "(string \<rightharpoonup> Layout) \<Rightarrow> pyval \<Rightarrow> error + Layout option" where
  "layouts_get ls v =
     (case v of
        VStr n \<Rightarrow> Inr (ls n)
      | VList xs \<Rightarrow> Inl TypeError
      | VDict kvs \<Rightarrow> Inl TypeError
      | _ \<Rightarrow> Inr None)"

text \<open>\<open>ctx.layout\<close> is \<open>AttrDict.__getattr__\<close>, that is \<open>ctx['layout']\<close>: KeyError when absent.\<close>

definition getattr :: "context \<Rightarrow> string \<Rightarrow> error + pyval" where
  "getattr c name = (case c (VStr name) of None \<Rightarrow> Inl (KeyError name) | Some v \<Rightarrow> Inr v)"

text \<open>The property \<open>Layout.layout\<close>: \<open>self.context.get('layout')\<close>, None when absent.\<close>

definition layout_of :: "Layout \<Rightarrow> pyval" where
  "layout_of L = (case l_context L (VStr ''layout'') of None \<Rightarrow> VNone | Some v \<Rightarrow> v)"

definition render :: "env \<Rightarrow> Template \<Rightarrow> error + string" where
  "render E T =
     (case transform E (filename T) (content T) of
        Inl e \<Rightarrow> Inl e
      | Inr src \<Rightarrow>
          (case render_template E src (ctx_of T) of
             Inl e \<Rightarrow> Inl e
           | Inr body \<Rightarrow>
               (let c = (ctx_of T)(VStr ''content'' \<mapsto> VStr body) in
                case getattr c ''layout'' of
                  Inl e \<Rightarrow> Inl e
                | Inr l \<Rightarrow>
                    (case layouts_get (layouts T) l of
                       Inl e \<Rightarrow> Inl e
                     | Inr (Some L) \<Rightarrow> render_template E (l_content L) c
                     | Inr None \<Rightarrow> Inr body))))"

text \<open>
  The \<open>while layout != None\<close> loop of \<open>Template.layout\<close>. It carries the context copy,
  the current value of \<open>ctx.content\<close> and the current layout; the result \<open>None\<close> is a
  loop that never returns.
\<close>

partial_function (option) layout_loop ::
  "env \<Rightarrow> (string \<rightharpoonup> Layout) \<Rightarrow> context \<Rightarrow> string \<Rightarrow> Layout option \<Rightarrow> (error + string) option"
where
  "layout_loop E ls c cur l =
     (case l of
        None \<Rightarrow> Some (Inr cur)
      | Some L \<Rightarrow>
          (case render_template E (l_content L) (c(VStr ''content'' \<mapsto> VStr cur)) of
             Inl e \<Rightarrow> Some (Inl e)
           | Inr s \<Rightarrow>
               (case layouts_get ls (layout_of L) of
                  Inl e \<Rightarrow> Some (Inl e)
                | Inr l' \<Rightarrow> layout_loop E ls c s l')))"

definition layout :: "env \<Rightarrow> Template \<Rightarrow> (error + string) option" where
  "layout E T =
     (case render E T of
        Inl e \<Rightarrow> Some (Inl e)
      | Inr r \<Rightarrow>
          (case getattr ((ctx_of T)(VStr ''content'' \<mapsto> VStr r)) ''layout'' of
             Inl e \<Rightarrow> Some (Inl e)
           | Inr l \<Rightarrow>
               (case layouts_get (layouts T) l of
                  Inl e \<Rightarrow> Some (Inl e)
                | Inr None \<Rightarrow> layout_loop E (layouts T) (ctx_of T) r None
                | Inr (Some L) \<Rightarrow>
                    (case layouts_get (layouts T) (layout_of L) of
                       Inl e \<Rightarrow> Some (Inl e)
                     | Inr l' \<Rightarrow> layout_loop E (layouts T) (ctx_of T) r l'))))"

text \<open>
  \<open>Template.write(path, content)\<close> opens \<open>os.path.join(self.DEPLOY_DIR, path)\<close>; the
  model returns the file name and what is written to it.
\<close>

definition Template_write :: "Template \<Rightarrow> string \<Rightarrow> string \<Rightarrow> string \<times> string" where
  "Template_write T path text = (os_path_join (DEPLOY_DIR T) [path], text)"

section \<open>Post\<close>

record Post =
  template :: Template
  year :: string
  month :: string
  day :: string
  slug :: string

text \<open>The properties \<open>date\<close>, \<open>path\<close> and \<open>url\<close>, from the four filename parts.\<close>

definition post_date :: "string \<Rightarrow> string \<Rightarrow> string \<Rightarrow> error + pyval" where
  "post_date y m d =
     (case (py_int y, py_int m, py_int d) of
        (Some yi, Some mi, Some di) \<Rightarrow> datetime yi mi di
      | _ \<Rightarrow> Inl ValueError)"

definition post_path :: "string \<Rightarrow> string \<Rightarrow> string \<Rightarrow> string" where
  "post_path y m d = os_path_join y [m, d]"

definition post_url :: "string \<Rightarrow> string \<Rightarrow> string \<Rightarrow> string \<Rightarrow> string" where
  "post_url y m d s = post_path y m d @ ''/'' @ s"

text \<open>
  Lines 141 to 147: the two raw keys are joined with a comma (\<open>str.join\<close> raises
  TypeError on a value that is not a string), deleted, and \<open>categories\<close> is rebound
  to the tokens that are not empty, each stripped after the test.
\<close>

definition get_default :: "context \<Rightarrow> string \<Rightarrow> pyval \<Rightarrow> pyval" where
  "get_default c k dflt = (case c (VStr k) of None \<Rightarrow> dflt | Some v \<Rightarrow> v)"

definition normalize_cats :: "string \<Rightarrow> string list" where
  "normalize_cats cats = map strip (filter (\<lambda>c. c \<noteq> []) (split CHR '','' cats))"

definition set_categories :: "context \<Rightarrow> error + context" where
  "set_categories c =
     (case (get_default c ''category'' (VStr []), get_default c ''categories'' (VStr [])) of
        (VStr a, VStr b) \<Rightarrow>
          Inr ((c |` (- {VStr ''category'', VStr ''categories''}))
                 (VStr ''categories'' \<mapsto> VList (map VStr (normalize_cats (a @ '','' @ b)))))
      | _ \<Rightarrow> Inl TypeError)"

definition Post_init ::
  "env \<Rightarrow> string \<Rightarrow> string \<Rightarrow> (string \<rightharpoonup> Layout) \<Rightarrow> context \<Rightarrow> error + Post" where
  "Post_init E deploy fname ls c =
     (case Template_init E deploy fname ls c of
        Inl e \<Rightarrow> Inl e
      | Inr T \<Rightarrow>
          (case split_max CHR ''-'' 3 (fst (splitext (basename fname))) of
             [y, m, d, s] \<Rightarrow>
               (case post_date y m d of
                  Inl e \<Rightarrow> Inl e
                | Inr dt \<Rightarrow>
                    (case set_categories
                            ((ctx_of T)(VStr ''date'' \<mapsto> dt,
                                        VStr ''url'' \<mapsto> VStr (post_url y m d s),
                                        VStr ''path'' \<mapsto> VStr (post_path y m d))) of
                       Inl e \<Rightarrow> Inl e
                     | Inr c' \<Rightarrow>
                         Inr \<lparr>template = T\<lparr>ctx_of := c'\<rparr>,
                              year = y, month = m, day = d, slug = s\<rparr>))
           | _ \<Rightarrow> Inl ValueError))"

text \<open>The property \<open>permalink\<close>, and the path that \<open>Post.write\<close> hands to \<open>Template.write\<close>.\<close>

definition permalink :: "Post \<Rightarrow> pyval" where
  "permalink P = get_default (ctx_of (template P)) ''permalink'' VNone"

definition Post_write_path :: "Post \<Rightarrow> string" where
  "Post_write_path P = os_path_join (post_path (year P) (month P) (day P)) [slug P, ''index.html'']"

definition Post_write :: "env \<Rightarrow> Post \<Rightarrow> (error + string \<times> string) option" where
  "Post_write E P =
     (case layout E (template P) of
        None \<Rightarrow> None
      | Some (Inl e) \<Rightarrow> Some (Inl e)
      | Some (Inr text) \<Rightarrow> Some (Inr (Template_write (template P) (Post_write_path P) text)))"

text \<open>
  The names that a relative POSIX path walks through, directories first and the file
  last. Path resolution skips an empty component, so \<open>a//b\<close> and \<open>a/b\<close> name the
  same file.
\<close>

fun path_parts_from :: "string \<Rightarrow> string \<Rightarrow> string list" where
  "path_parts_from cur [] = (if cur = [] then [] else [cur])"
| "path_parts_from cur (x # xs) =
     (if x = CHR ''/'' then (if cur = [] then [] else [cur]) @ path_parts_from [] xs
      else path_parts_from (cur @ [x]) xs)"

definition path_parts :: "string \<Rightarrow> string list" where
  "path_parts p = path_parts_from [] p"

text \<open>
  The parent chain that starts at a layout ends within \<open>n\<close> steps: it reaches a layout
  whose declared parent is not in the mapping, or a lookup that raises.
\<close>

fun chain_ends :: "(string \<rightharpoonup> Layout) \<Rightarrow> nat \<Rightarrow> Layout option \<Rightarrow> bool" where
  "chain_ends ls n None = True"
| "chain_ends ls 0 (Some L) = False"
| "chain_ends ls (Suc n) (Some L) =
     (case layouts_get ls (layout_of L) of Inl e \<Rightarrow> True | Inr l' \<Rightarrow> chain_ends ls n l')"

section \<open>Site\<close>

text \<open>The property \<open>Post.categories\<close>: \<open>self.context.get('categories')\<close>.\<close>

definition post_categories :: "Post \<Rightarrow> pyval" where
  "post_categories P = get_default (ctx_of (template P)) ''categories'' VNone"

text \<open>
  \<open>for cat in post.categories\<close>: a list yields its items, a string its characters, a
  dictionary its keys; anything else is not iterable.
\<close>

fun iter_items :: "pyval \<Rightarrow> error + pyval list" where
  "iter_items (VList xs) = Inr xs"
| "iter_items (VStr s) = Inr (map (\<lambda>ch. VStr [ch]) s)"
| "iter_items (VDict kvs) = Inr (map fst kvs)"
| "iter_items v = Inl TypeError"

text \<open>\<open>self.categories.setdefault(cat, []).append(post)\<close>\<close>

definition setdefault_append ::
  "(pyval \<rightharpoonup> Post list) \<Rightarrow> pyval \<Rightarrow> Post \<Rightarrow> error + (pyval \<rightharpoonup> Post list)" where
  "setdefault_append cs cat P =
     (if hashable cat
      then Inr (cs(cat \<mapsto> (case cs cat of None \<Rightarrow> [] | Some ps \<Rightarrow> ps) @ [P]))
      else Inl TypeError)"

text \<open>The inner and the outer loop of \<open>Site.calc_categories\<close>.\<close>

fun add_cats ::
  "(pyval \<rightharpoonup> Post list) \<Rightarrow> Post \<Rightarrow> pyval list \<Rightarrow> error + (pyval \<rightharpoonup> Post list)" where
  "add_cats cs P [] = Inr cs"
| "add_cats cs P (cat # rest) =
     (case setdefault_append cs cat P of Inl e \<Rightarrow> Inl e | Inr cs' \<Rightarrow> add_cats cs' P rest)"

fun calc_loop ::
  "(pyval \<rightharpoonup> Post list) \<Rightarrow> Post list \<Rightarrow> error + (pyval \<rightharpoonup> Post list)" where
  "calc_loop cs [] = Inr cs"
| "calc_loop cs (P # posts) =
     (case iter_items (post_categories P) of
        Inl e \<Rightarrow> Inl e
      | Inr cats \<Rightarrow>
          (case add_cats cs P cats of Inl e \<Rightarrow> Inl e | Inr cs' \<Rightarrow> calc_loop cs' posts))"

definition calc_categories :: "Post list \<Rightarrow> error + (pyval \<rightharpoonup> Post list)" where
  "calc_categories posts = calc_loop Map.empty posts"

section \<open>AttrDict objects on a heap\<close>

text \<open>
  \<open>AttrDict.copy\<close> is about object identity, so dictionaries live on a heap: an address
  is an index into the list of all dictionaries allocated so far, and a new object gets
  the next index. Values are of any type; a nested mutable value is a reference that the
  shallow copy shares.
\<close>

type_synonym ('k, 'v) heap = "('k \<rightharpoonup> 'v) list"

text \<open>
  \<open>AttrDict(super(AttrDict, self).copy())\<close> allocates twice: \<open>dict.copy\<close> makes a new
  dictionary, and the constructor makes the AttrDict from it. The address of the second
  is returned.
\<close>

definition AttrDict_copy :: "('k, 'v) heap \<Rightarrow> nat \<Rightarrow> (('k, 'v) heap \<times> nat) option" where
  "AttrDict_copy h a =
     (if a < length h then Some (h @ [h ! a, h ! a], Suc (length h)) else None)"

text \<open>The mutations of a dictionary's key set: \<open>d[k] = v\<close> and \<open>del d[k]\<close>.\<close>

datatype ('k, 'v) mutation = SetItem 'k 'v | DelItem 'k

fun mutate :: "('k, 'v) heap \<Rightarrow> nat \<Rightarrow> ('k, 'v) mutation \<Rightarrow> error + ('k, 'v) heap" where
  "mutate h a (SetItem k v) = Inr (h[a := (h ! a)(k \<mapsto> v)])"
| "mutate h a (DelItem k) =
     (if k \<in> dom (h ! a) then Inr (h[a := (h ! a)(k := None)]) else Inl (KeyError []))"

fun mutate_all :: "('k, 'v) heap \<Rightarrow> nat \<Rightarrow> ('k, 'v) mutation list \<Rightarrow> error + ('k, 'v) heap" where
  "mutate_all h a [] = Inr h"
| "mutate_all h a (m # ms) =
     (case mutate h a m of Inl e \<Rightarrow> Inl e | Inr h' \<Rightarrow> mutate_all h' a ms)"

section \<open>Example inputs\<close>

text \<open>
  An environment in which every file holds \<open>Hi\<close>, the decoder is never reached, no
  transformer is registered and the template engine returns its source unchanged.
\<close>

definition plain_env :: env where
  "plain_env = \<lparr>read_file = (\<lambda>f. Inr ''Hi''), yaml_load = (\<lambda>t. Inl YAMLError),
                 transformers = Map.empty, render_template = (\<lambda>t c. Inr t)\<rparr>"

text \<open>Two layouts that name each other as parent, and a page whose layout is the first.\<close>

definition cyc_a :: Layout where
  "cyc_a = \<lparr>l_name = ''a'', l_content = ''<a>'', l_context = [VStr ''layout'' \<mapsto> VStr ''b'']\<rparr>"

definition cyc_b :: Layout where
  "cyc_b = \<lparr>l_name = ''b'', l_content = ''<b>'', l_context = [VStr ''layout'' \<mapsto> VStr ''a'']\<rparr>"

definition cyc_layouts :: "string \<rightharpoonup> Layout" where
  "cyc_layouts = [''a'' \<mapsto> cyc_a, ''b'' \<mapsto> cyc_b]"

definition cyc_page :: Template where
  "cyc_page = \<lparr>DEPLOY_DIR = ''_deploy'', filename = ''index.html_'', layouts = cyc_layouts,
                ctx_of = [VStr ''layout'' \<mapsto> VStr ''a''], content = ''Hi''\<rparr>"

text \<open>A page whose layout is in no mapping, and a page with no layout key at all.\<close>

definition stray_page :: Template where
  "stray_page = \<lparr>DEPLOY_DIR = ''_deploy'', filename = ''index.html_'', layouts = Map.empty,
                  ctx_of = [VStr ''layout'' \<mapsto> VStr ''missing''], content = ''Hi''\<rparr>"

definition bare_page :: Template where
  "bare_page = \<lparr>DEPLOY_DIR = ''_deploy'', filename = ''index.html_'', layouts = Map.empty,
                 ctx_of = Map.empty, content = ''Hi''\<rparr>"

text \<open>
  An environment whose files carry the metadata block \<open>category: tech\<close>,
  \<open>categories: tech\<close>, with the mapping that the decoder returns for it.
\<close>

definition dup_env :: env where
  "dup_env =
     \<lparr>read_file = (\<lambda>f. Inr ''---\<newline>category: tech\<newline>categories: tech\<newline>---\<newline>Hi''),
      yaml_load = (\<lambda>t. Inr (VDict [(VStr ''category'', VStr ''tech''),
                                    (VStr ''categories'', VStr ''tech'')])),
      transformers = Map.empty, render_template = (\<lambda>t c. Inr t)\<rparr>"

text \<open>
  An environment whose files hold an empty metadata block; the decoder returns None for
  the blank document between the markers, as \<open>yaml.load\<close> does.
\<close>

definition blank_env :: env where
  "blank_env =
     \<lparr>read_file = (\<lambda>f. Inr ''---\<newline>---\<newline>body''),
      yaml_load = (\<lambda>t. Inr VNone),
      transformers = Map.empty, render_template = (\<lambda>t c. Inr t)\<rparr>"

text \<open>An environment whose files hold a block that decodes to a mapping with one key.\<close>

definition meta_env :: env where
  "meta_env =
     \<lparr>read_file = (\<lambda>f. Inr ''---\<newline>layout: a\<newline>---\<newline>body''),
      yaml_load = (\<lambda>t. Inr (VDict [(VStr ''layout'', VStr ''a'')])),
      transformers = Map.empty, render_template = (\<lambda>t c. Inr t)\<rparr>"

text \<open>Two constructed posts, with the categories \<open>tech, life\<close> and \<open>tech\<close>.\<close>

definition post_one :: Post where
  "post_one =
     \<lparr>template = \<lparr>DEPLOY_DIR = ''_deploy'', filename = ''_posts/2024-03-05-one.md'',
                   layouts = Map.empty,
                   ctx_of = [VStr ''categories'' \<mapsto> VList [VStr ''tech'', VStr ''life'']],
                   content = ''Hi''\<rparr>,
      year = ''2024'', month = ''03'', day = ''05'', slug = ''one''\<rparr>"

definition post_two :: Post where
  "post_two =
     \<lparr>template = \<lparr>DEPLOY_DIR = ''_deploy'', filename = ''_posts/2024-03-06-two.md'',
                   layouts = Map.empty,
                   ctx_of = [VStr ''categories'' \<mapsto> VList [VStr ''tech'']],
                   content = ''Hi''\<rparr>,
      year = ''2024'', month = ''03'', day = ''06'', slug = ''two''\<rparr>"

text \<open>
  An environment whose template engine puts the value of \<open>content\<close> after the
  template's own text, as a layout \<open>...{{ content }}\<close> does.
\<close>

definition wrap_env :: env where
  "wrap_env =
     \<lparr>read_file = (\<lambda>f. Inr ''Hi''), yaml_load = (\<lambda>t. Inl YAMLError),
      transformers = Map.empty,
      render_template =
        (\<lambda>t c. Inr (t @ (case c (VStr ''content'') of Some (VStr s) \<Rightarrow> s | _ \<Rightarrow> [])))\<rparr>"

text \<open>
  Three layouts in a chain: \<open>a\<close> has parent \<open>b\<close>, \<open>b\<close> has parent \<open>c\<close>, and
  \<open>c\<close> has none; and a page whose layout is \<open>a\<close>.
\<close>

definition inner_layout :: Layout where
  "inner_layout =
     \<lparr>l_name = ''a'', l_content = ''<a>'', l_context = [VStr ''layout'' \<mapsto> VStr ''b'']\<rparr>"

definition middle_layout :: Layout where
  "middle_layout =
     \<lparr>l_name = ''b'', l_content = ''<b>'', l_context = [VStr ''layout'' \<mapsto> VStr ''c'']\<rparr>"

definition outer_layout :: Layout where
  "outer_layout = \<lparr>l_name = ''c'', l_content = ''<c>'', l_context = Map.empty\<rparr>"

definition chain_layouts :: "string \<rightharpoonup> Layout" where
  "chain_layouts = [''a'' \<mapsto> inner_layout, ''b'' \<mapsto> middle_layout, ''c'' \<mapsto> outer_layout]"

definition chain_page :: Template where
  "chain_page = \<lparr>DEPLOY_DIR = ''_deploy'', filename = ''index.html_'', layouts = chain_layouts,
                  ctx_of = [VStr ''layout'' \<mapsto> VStr ''a''], content = ''Hi''\<rparr>"

text \<open>A layout that names itself as parent, and a page that uses it.\<close>

definition self_layout :: Layout where
  "self_layout =
     \<lparr>l_name = ''s'', l_content = ''<s>'', l_context = [VStr ''layout'' \<mapsto> VStr ''s'']\<rparr>"

definition self_layouts :: "string \<rightharpoonup> Layout" where
  "self_layouts = [''s'' \<mapsto> self_layout]"

definition self_page :: Template where
  "self_page = \<lparr>DEPLOY_DIR = ''_deploy'', filename = ''index.html_'', layouts = self_layouts,
                 ctx_of = [VStr ''layout'' \<mapsto> VStr ''s''], content = ''Hi''\<rparr>"

text \<open>
  An environment whose files carry a metadata block with a layout and a permalink, with
  the mapping that the decoder returns for it; and the layout mapping of that site.
\<close>

definition perma_env :: env where
  "perma_env =
     \<lparr>read_file = (\<lambda>f. Inr ''---\<newline>layout: post\<newline>permalink: /custom/\<newline>---\<newline>Hi''),
      yaml_load = (\<lambda>t. Inr (VDict [(VStr ''layout'', VStr ''post''),
                                    (VStr ''permalink'', VStr ''/custom/'')])),
      transformers = Map.empty,
      render_template =
        (\<lambda>t c. Inr (t @ (case c (VStr ''content'') of Some (VStr s) \<Rightarrow> s | _ \<Rightarrow> [])))\<rparr>"

definition perma_layouts :: "string \<rightharpoonup> Layout" where
  "perma_layouts =
     [''post'' \<mapsto> \<lparr>l_name = ''post'', l_content = ''<p>'', l_context = Map.empty\<rparr>]"

section \<open>Facts about the string functions\<close>

lemma digit_not_space: "is_digit c \<Longrightarrow> \<not> is_space c"
  by (auto simp: is_digit_def is_space_def)

lemma digit_not_sign: "is_digit c \<Longrightarrow> c \<noteq> CHR ''-'' \<and> c \<noteq> CHR ''+'' \<and> c \<noteq> CHR ''/''"
  by (auto simp: is_digit_def)

lemma digits_val_SomeD:
  "digits_val s = Some n \<Longrightarrow> s \<noteq> [] \<and> list_all is_digit s"
  by (simp add: digits_val_def split: if_splits)

lemma strip_digits:
  assumes "s \<noteq> []" "list_all is_digit s"
  shows "strip s = s"
proof -
  from assms obtain c cs where s: "s = c # cs" by (cases s) auto
  with assms have "\<not> is_space c" by (simp add: digit_not_space)
  then have a: "dropWhile is_space s = s" by (simp add: s)
  from assms have "rev s \<noteq> []" "is_digit (hd (rev s))"
    by (simp_all add: hd_rev list_all_iff)
  then have "dropWhile is_space (rev s) = rev s"
    by (cases "rev s") (auto simp: digit_not_space)
  with a show ?thesis by (simp add: strip_def)
qed

lemma py_int_digits: "digits_val s = Some n \<Longrightarrow> py_int s = Some n"
proof -
  assume h: "digits_val s = Some n"
  then have ne: "s \<noteq> []" and dg: "list_all is_digit s" by (auto dest: digits_val_SomeD)
  then obtain c cs where s: "s = c # cs" by (cases s) auto
  with dg have "c \<noteq> CHR ''-''" "c \<noteq> CHR ''+''" using digit_not_sign by auto
  moreover have "strip s = c # cs" using strip_digits [OF ne dg] s by simp
  ultimately show ?thesis using h s by (simp add: py_int_def)
qed

lemma digits_no_dash: "digits_val s = Some n \<Longrightarrow> CHR ''-'' \<notin> set s \<and> CHR ''/'' \<notin> set s"
  by (metis digits_val_SomeD digit_not_sign list_all_iff)

lemma split_max_append:
  "sep \<notin> set a \<Longrightarrow> split_max sep (Suc n) (a @ sep # b) = a # split_max sep n b"
proof -
  assume h: "sep \<notin> set a"
  then have "takeWhile (\<lambda>c. c \<noteq> sep) (a @ sep # b) = a"
    by (induction a) auto
  moreover from h have "dropWhile (\<lambda>c. c \<noteq> sep) (a @ sep # b) = sep # b"
    by (induction a) auto
  ultimately show ?thesis by simp
qed

lemma split_max_length:
  "length (split_max sep n s) \<le> Suc (length (filter (\<lambda>c. c = sep) s))"
proof (induction n arbitrary: s)
  case 0
  then show ?case by simp
next
  case (Suc n)
  show ?case
  proof (cases "sep \<in> set s")
    case False
    then show ?thesis by simp
  next
    case True
    then obtain a b where s: "s = a @ sep # b" "sep \<notin> set a"
      by (meson split_list_first)
    have "length (split_max sep (Suc n) s) = Suc (length (split_max sep n b))"
      using s by (simp add: split_max_append del: split_max.simps)
    also have "\<dots> \<le> Suc (Suc (length (filter (\<lambda>c. c = sep) b)))"
      using Suc.IH by simp
    also have "\<dots> = Suc (length (filter (\<lambda>c. c = sep) s))"
      using s by (auto simp: filter_empty_conv)
    finally show ?thesis .
  qed
qed

lemma join2_plain:
  "a \<noteq> [] \<Longrightarrow> last a \<noteq> CHR ''/'' \<Longrightarrow> take 1 b \<noteq> ''/'' \<Longrightarrow> join2 a b = a @ ''/'' @ b"
  by (simp add: join2_def)

lemma post_path_digits:
  assumes "digits_val y = Some yi" "digits_val m = Some mi" "digits_val d = Some di"
  shows "post_path y m d = y @ ''/'' @ m @ ''/'' @ d"
proof -
  from assms have ne: "y \<noteq> []" "m \<noteq> []" "d \<noteq> []" by (auto dest: digits_val_SomeD)
  from assms have ns: "CHR ''/'' \<notin> set y" "CHR ''/'' \<notin> set m" "CHR ''/'' \<notin> set d"
    by (auto dest: digits_no_dash)
  have ly: "last y \<noteq> CHR ''/''" using ne ns last_in_set by metis
  have lm: "last m \<noteq> CHR ''/''" using ne ns last_in_set by metis
  have tm: "take 1 m \<noteq> ''/''" using ne ns by (cases m) auto
  have td: "take 1 d \<noteq> ''/''" using ne ns by (cases d) auto
  have 1: "join2 y m = y @ ''/'' @ m" using ne ly tm by (rule_tac join2_plain) 
  have 2: "join2 (y @ ''/'' @ m) d = (y @ ''/'' @ m) @ ''/'' @ d"
    using ne lm td by (intro join2_plain) auto
  show ?thesis unfolding post_path_def os_path_join_def using 1 2 by simp
qed

lemma basename_no_slash: "CHR ''/'' \<notin> set (basename p)"
proof -
  have "\<forall>c \<in> set (takeWhile (\<lambda>c. c \<noteq> CHR ''/'') (rev p)). c \<noteq> CHR ''/''"
    by (auto dest: set_takeWhileD)
  then show ?thesis by (auto simp: basename_def)
qed

lemma splitext_subset: "set (fst (splitext p)) \<subseteq> set p"
  by (auto simp: splitext_def Let_def dest: in_set_takeD)

lemma tl_subset: "set (tl xs) \<subseteq> set xs"
  by (cases xs) auto

lemma split_max_subset: "x \<in> set (split_max sep n s) \<Longrightarrow> set x \<subseteq> set s"
proof (induction n arbitrary: s)
  case 0
  then show ?case by simp
next
  case (Suc n)
  show ?case
  proof (cases "sep \<in> set s")
    case False
    with Suc.prems show ?thesis by simp
  next
    case True
    with Suc.prems consider "x = takeWhile (\<lambda>c. c \<noteq> sep) s"
      | "x \<in> set (split_max sep n (tl (dropWhile (\<lambda>c. c \<noteq> sep) s)))" by auto
    then show ?thesis
    proof cases
      case 1
      then show ?thesis by (auto dest: set_takeWhileD)
    next
      case 2
      then have "set x \<subseteq> set (tl (dropWhile (\<lambda>c. c \<noteq> sep) s))" by (rule Suc.IH)
      also have "\<dots> \<subseteq> set (dropWhile (\<lambda>c. c \<noteq> sep) s)"
        using tl_subset [of "dropWhile (\<lambda>c. c \<noteq> sep) s"] .
      also have "\<dots> \<subseteq> set s" by (auto dest: set_dropWhileD)
      finally show ?thesis .
    qed
  qed
qed

lemma py_int_nonempty: "py_int s = Some n \<Longrightarrow> s \<noteq> []"
  by (auto simp: py_int_def strip_def)

lemma Post_init_inv:
  assumes "Post_init E deploy fname ls c = Inr P"
  shows "\<exists>T yi mi di c'.
           Template_init E deploy fname ls c = Inr T \<and>
           split_max CHR ''-'' 3 (fst (splitext (basename fname))) = [year P, month P, day P, slug P] \<and>
           py_int (year P) = Some yi \<and> py_int (month P) = Some mi \<and> py_int (day P) = Some di \<and>
           valid_date yi mi di \<and>
           set_categories ((ctx_of T)(VStr ''date'' \<mapsto> VDate yi mi di,
                VStr ''url'' \<mapsto> VStr (post_url (year P) (month P) (day P) (slug P)),
                VStr ''path'' \<mapsto> VStr (post_path (year P) (month P) (day P)))) = Inr c' \<and>
           template P = T\<lparr>ctx_of := c'\<rparr>"
  using assms
  by (auto simp: Post_init_def post_date_def datetime_def
           split: sum.splits list.splits option.splits if_splits)

section \<open>Post construction\<close>

lemma split_max_stem:
  assumes "CHR ''-'' \<notin> set y" "CHR ''-'' \<notin> set m" "CHR ''-'' \<notin> set d"
  shows "split_max CHR ''-'' 3 (y @ ''-'' @ m @ ''-'' @ d @ ''-'' @ s) = [y, m, d, s]"
proof -
  have 3: "(3::nat) = Suc (Suc (Suc 0))" by simp
  show ?thesis
    unfolding 3 using assms
    by (simp add: split_max_append del: split_max.simps(2))
qed

lemma set_categories_lookup:
  assumes "get_default c ''category'' (VStr []) = VStr a"
    and "get_default c ''categories'' (VStr []) = VStr b"
  shows "\<exists>c'. set_categories c = Inr c' \<and>
           c' (VStr ''category'') = None \<and>
           c' (VStr ''categories'') = Some (VList (map VStr (normalize_cats (a @ '','' @ b)))) \<and>
           (\<forall>k. k \<noteq> VStr ''category'' \<and> k \<noteq> VStr ''categories'' \<longrightarrow> c' k = c k)"
  using assms by (simp add: set_categories_def restrict_map_def)

lemma set_categories_inv:
  assumes "set_categories c = Inr c'"
  shows "\<exists>a b. get_default c ''category'' (VStr []) = VStr a \<and>
           get_default c ''categories'' (VStr []) = VStr b \<and>
           c' (VStr ''category'') = None \<and>
           c' (VStr ''categories'') = Some (VList (map VStr (normalize_cats (a @ '','' @ b))))"
  using assms by (auto simp: set_categories_def restrict_map_def split: pyval.splits)

lemma Post_init_success:
  assumes T: "Template_init E deploy fname ls c = Inr T"
    and stem: "fst (splitext (basename fname)) = y @ ''-'' @ m @ ''-'' @ d @ ''-'' @ s"
    and dg: "digits_val y = Some yi" "digits_val m = Some mi" "digits_val d = Some di"
    and vd: "valid_date yi mi di"
    and cat: "get_default (ctx_of T) ''category'' (VStr []) = VStr a"
             "get_default (ctx_of T) ''categories'' (VStr []) = VStr b"
  shows "\<exists>P. Post_init E deploy fname ls c = Inr P \<and>
           year P = y \<and> month P = m \<and> day P = d \<and> slug P = s \<and>
           ctx_of (template P) (VStr ''date'') = Some (VDate yi mi di) \<and>
           ctx_of (template P) (VStr ''path'') = Some (VStr (y @ ''/'' @ m @ ''/'' @ d)) \<and>
           ctx_of (template P) (VStr ''url'') = Some (VStr (y @ ''/'' @ m @ ''/'' @ d @ ''/'' @ s))"
proof -
  let ?c1 = "(ctx_of T)(VStr ''date'' \<mapsto> VDate yi mi di,
               VStr ''url'' \<mapsto> VStr (post_url y m d s),
               VStr ''path'' \<mapsto> VStr (post_path y m d))"
  have sp: "split_max CHR ''-'' 3 (fst (splitext (basename fname))) = [y, m, d, s]"
    unfolding stem using dg by (intro split_max_stem) (auto dest: digits_no_dash)
  have pd: "post_date y m d = Inr (VDate yi mi di)"
    using dg vd by (simp add: post_date_def py_int_digits datetime_def)
  have pp: "post_path y m d = y @ ''/'' @ m @ ''/'' @ d"
    using dg by (rule post_path_digits)
  have g1: "get_default ?c1 ''category'' (VStr []) = VStr a"
    using cat(1) by (simp add: get_default_def)
  have g2: "get_default ?c1 ''categories'' (VStr []) = VStr b"
    using cat(2) by (simp add: get_default_def)
  from set_categories_lookup [OF g1 g2] obtain c' where
    c': "set_categories ?c1 = Inr c'"
    and keep: "\<forall>k. k \<noteq> VStr ''category'' \<and> k \<noteq> VStr ''categories'' \<longrightarrow> c' k = ?c1 k"
    by blast
  have "Post_init E deploy fname ls c =
          Inr \<lparr>template = T\<lparr>ctx_of := c'\<rparr>, year = y, month = m, day = d, slug = s\<rparr>"
    by (simp add: Post_init_def T sp pd c')
  moreover have "c' (VStr ''date'') = Some (VDate yi mi di)" using keep by simp
  moreover have "c' (VStr ''path'') = Some (VStr (y @ ''/'' @ m @ ''/'' @ d))"
    using keep pp by simp
  moreover have "c' (VStr ''url'') = Some (VStr (y @ ''/'' @ m @ ''/'' @ d @ ''/'' @ s))"
    using keep pp by (simp add: post_url_def)
  ultimately show ?thesis by simp
qed

lemma Post_init_too_few:
  assumes "length (filter (\<lambda>ch. ch = CHR ''-'') (fst (splitext (basename fname)))) < 3"
  shows "isl (Post_init E deploy fname ls c)"
proof -
  have "length (split_max CHR ''-'' 3 (fst (splitext (basename fname)))) < 4"
    using split_max_length [of "CHR ''-''" 3 "fst (splitext (basename fname))"] assms
    by simp
  then show ?thesis
    by (auto simp: Post_init_def split: sum.splits list.splits)
qed

lemma Post_init_not_int:
  assumes stem: "fst (splitext (basename fname)) = y @ ''-'' @ m @ ''-'' @ d @ ''-'' @ s"
    and nd: "CHR ''-'' \<notin> set y" "CHR ''-'' \<notin> set m" "CHR ''-'' \<notin> set d"
    and bad: "py_int y = None \<or> py_int m = None \<or> py_int d = None"
  shows "isl (Post_init E deploy fname ls c)"
proof -
  have sp: "split_max CHR ''-'' 3 (fst (splitext (basename fname))) = [y, m, d, s]"
    unfolding stem using nd by (rule split_max_stem)
  have "post_date y m d = Inl ValueError"
    using bad by (auto simp: post_date_def split: option.splits)
  then show ?thesis
    by (simp add: Post_init_def sp split: sum.splits)
qed

lemma Post_init_bad_date:
  assumes stem: "fst (splitext (basename fname)) = y @ ''-'' @ m @ ''-'' @ d @ ''-'' @ s"
    and nd: "CHR ''-'' \<notin> set y" "CHR ''-'' \<notin> set m" "CHR ''-'' \<notin> set d"
    and ints: "py_int y = Some yi" "py_int m = Some mi" "py_int d = Some di"
    and bad: "\<not> valid_date yi mi di"
  shows "isl (Post_init E deploy fname ls c)"
proof -
  have sp: "split_max CHR ''-'' 3 (fst (splitext (basename fname))) = [y, m, d, s]"
    unfolding stem using nd by (rule split_max_stem)
  have "post_date y m d = Inl ValueError"
    using ints bad by (simp add: post_date_def datetime_def)
  then show ?thesis
    by (simp add: Post_init_def sp split: sum.splits)
qed

section \<open>Concrete inputs\<close>

lemma stem_hello: "fst (splitext (basename ''_posts/2024-03-05-hello.md'')) = ''2024-03-05-hello''"
  by (simp add: splitext_def basename_def Let_def)

lemma stem_13: "fst (splitext (basename ''_posts/2024-13-01-x.md'')) = ''2024-13-01-x''"
  by (simp add: splitext_def basename_def Let_def)

lemma stem_few: "fst (splitext (basename ''_posts/2024-03-hello.md'')) = ''2024-03-hello''"
  by (simp add: splitext_def basename_def Let_def)

lemma stem_mar: "fst (splitext (basename ''_posts/2024-mar-05-x.md'')) = ''2024-mar-05-x''"
  by (simp add: splitext_def basename_def Let_def)

lemma read_plain:
  "RE_YAML_match ''Hi'' = (None, ''Hi'')"
  by (simp add: RE_YAML_match_def RE_YAML_groups_def marker_ends_def)

lemma Template_init_plain:
  "Template_init \<lparr>read_file = (\<lambda>f. Inr ''Hi''), yaml_load = (\<lambda>t. Inl YAMLError),
       transformers = Map.empty, render_template = (\<lambda>t c. Inr t)\<rparr> deploy fname ls c =
     Inr \<lparr>DEPLOY_DIR = deploy, filename = fname, layouts = ls, ctx_of = c, content = ''Hi''\<rparr>"
  by (simp add: Template_init_def read_yaml_def read_plain)

lemma dv2024: "digits_val ''2024'' = Some 2024" by (simp add: digits_val_def is_digit_def digit_val_def)

lemma dv03: "digits_val ''03'' = Some 3" by (simp add: digits_val_def is_digit_def digit_val_def)

lemma dv05: "digits_val ''05'' = Some 5" by (simp add: digits_val_def is_digit_def digit_val_def)

lemma dv13: "digits_val ''13'' = Some 13" by (simp add: digits_val_def is_digit_def digit_val_def)

lemma dv01: "digits_val ''01'' = Some 1" by (simp add: digits_val_def is_digit_def digit_val_def)

lemma pi_mar: "py_int ''mar'' = None"
  by (simp add: py_int_def strip_def is_space_def digits_val_def is_digit_def)

lemma Post_init_hello:
  "\<exists>P. Post_init \<lparr>read_file = (\<lambda>f. Inr ''Hi''), yaml_load = (\<lambda>t. Inl YAMLError),
            transformers = Map.empty, render_template = (\<lambda>t c. Inr t)\<rparr>
          ''_deploy'' ''_posts/2024-03-05-hello.md'' Map.empty Map.empty = Inr P \<and>
        year P = ''2024'' \<and> month P = ''03'' \<and> day P = ''05'' \<and> slug P = ''hello''"
proof -
  have vd: "valid_date 2024 3 5" by (simp add: valid_date_def days_in_month_def)
  show ?thesis
    using Post_init_success [of _ "''_deploy''" "''_posts/2024-03-05-hello.md''"
        Map.empty Map.empty _ "''2024''" "''03''" "''05''" "''hello''" 2024 3 5 "[]" "[]",
        OF Template_init_plain]
    by (simp add: stem_hello dv2024 dv03 dv05 vd get_default_def) blast
qed

lemma normalize_cats_empty: "normalize_cats ([] @ '','' @ []) = []"
  by (simp add: normalize_cats_def split_def)

section \<open>Claims about Post construction\<close>

text \<open>
  C1, as amended. Let the stem of the filename (basename without extension) be
  \<open>year-month-day-slug\<close>. If year, month and day are strings of decimal digits that
  name a date of the calendar (year 1 to 9999, month 1 to 12, day within the month), the
  file is read and its metadata decoded, and the values of \<open>category\<close> and
  \<open>categories\<close>, where present, are strings, then the construction succeeds, the four
  parts are the filename's, and the context holds \<open>date = datetime(year, month, day)\<close>,
  \<open>path = year/month/day\<close> and \<open>url = path/slug\<close>. The construction fails when the
  stem has fewer than three dashes, when \<open>int\<close> rejects one of the three date parts,
  and when the three integers are not a date of the calendar.
\<close>

theorem Post_init_filename:
  "(Template_init E deploy fname ls c = Inr T \<and>
    fst (splitext (basename fname)) = y @ ''-'' @ m @ ''-'' @ d @ ''-'' @ s \<and>
    digits_val y = Some yi \<and> digits_val m = Some mi \<and> digits_val d = Some di \<and>
    valid_date yi mi di \<and>
    get_default (ctx_of T) ''category'' (VStr []) = VStr a \<and>
    get_default (ctx_of T) ''categories'' (VStr []) = VStr b
    \<longrightarrow> (\<exists>P. Post_init E deploy fname ls c = Inr P \<and>
           year P = y \<and> month P = m \<and> day P = d \<and> slug P = s \<and>
           ctx_of (template P) (VStr ''date'') = Some (VDate yi mi di) \<and>
           ctx_of (template P) (VStr ''path'') = Some (VStr (y @ ''/'' @ m @ ''/'' @ d)) \<and>
           ctx_of (template P) (VStr ''url'') =
             Some (VStr (y @ ''/'' @ m @ ''/'' @ d @ ''/'' @ s)))) \<and>
   (length (filter (\<lambda>ch. ch = CHR ''-'') (fst (splitext (basename fname)))) < 3
    \<longrightarrow> isl (Post_init E deploy fname ls c)) \<and>
   (fst (splitext (basename fname)) = y @ ''-'' @ m @ ''-'' @ d @ ''-'' @ s \<and>
    CHR ''-'' \<notin> set y \<and> CHR ''-'' \<notin> set m \<and> CHR ''-'' \<notin> set d \<and>
    (py_int y = None \<or> py_int m = None \<or> py_int d = None)
    \<longrightarrow> isl (Post_init E deploy fname ls c)) \<and>
   (fst (splitext (basename fname)) = y @ ''-'' @ m @ ''-'' @ d @ ''-'' @ s \<and>
    CHR ''-'' \<notin> set y \<and> CHR ''-'' \<notin> set m \<and> CHR ''-'' \<notin> set d \<and>
    py_int y = Some yi \<and> py_int m = Some mi \<and> py_int d = Some di \<and> \<not> valid_date yi mi di
    \<longrightarrow> isl (Post_init E deploy fname ls c))"
  using Post_init_success [of E deploy fname ls c T y m d s yi mi di a b]
    Post_init_too_few [of fname E deploy ls c]
    Post_init_not_int [of fname y m d s E deploy ls c]
    Post_init_bad_date [of fname y m d s yi mi di E deploy ls c]
  by blast

text \<open>The theorem at four filenames: one that constructs, three that fail.\<close>

theorem Post_init_filename_witness:
  "(\<exists>P. Post_init \<lparr>read_file = (\<lambda>f. Inr ''Hi''), yaml_load = (\<lambda>t. Inl YAMLError),
            transformers = Map.empty, render_template = (\<lambda>t c. Inr t)\<rparr>
          ''_deploy'' ''_posts/2024-03-05-hello.md'' Map.empty Map.empty = Inr P \<and>
        year P = ''2024'' \<and> month P = ''03'' \<and> day P = ''05'' \<and> slug P = ''hello'' \<and>
        ctx_of (template P) (VStr ''date'') = Some (VDate 2024 3 5) \<and>
        ctx_of (template P) (VStr ''path'') = Some (VStr ''2024/03/05'') \<and>
        ctx_of (template P) (VStr ''url'') = Some (VStr ''2024/03/05/hello'')) \<and>
   isl (Post_init \<lparr>read_file = (\<lambda>f. Inr ''Hi''), yaml_load = (\<lambda>t. Inl YAMLError),
            transformers = Map.empty, render_template = (\<lambda>t c. Inr t)\<rparr>
          ''_deploy'' ''_posts/2024-03-hello.md'' Map.empty Map.empty) \<and>
   isl (Post_init \<lparr>read_file = (\<lambda>f. Inr ''Hi''), yaml_load = (\<lambda>t. Inl YAMLError),
            transformers = Map.empty, render_template = (\<lambda>t c. Inr t)\<rparr>
          ''_deploy'' ''_posts/2024-mar-05-x.md'' Map.empty Map.empty) \<and>
   isl (Post_init \<lparr>read_file = (\<lambda>f. Inr ''Hi''), yaml_load = (\<lambda>t. Inl YAMLError),
            transformers = Map.empty, render_template = (\<lambda>t c. Inr t)\<rparr>
          ''_deploy'' ''_posts/2024-13-01-x.md'' Map.empty Map.empty)"
  (is "?A \<and> ?B \<and> ?C \<and> ?D")
proof -
  let ?E = "\<lparr>read_file = (\<lambda>f. Inr ''Hi''), yaml_load = (\<lambda>t. Inl YAMLError),
            transformers = Map.empty, render_template = (\<lambda>t c. Inr t)\<rparr>"
  let ?T = "\<lambda>f. \<lparr>DEPLOY_DIR = ''_deploy'', filename = f, layouts = Map.empty,
                ctx_of = Map.empty, content = ''Hi''\<rparr>"
  have vd: "valid_date 2024 3 5" by (simp add: valid_date_def days_in_month_def)
  have nvd: "\<not> valid_date 2024 13 1" by (simp add: valid_date_def)
  have a: ?A
    using Post_init_filename [of ?E "''_deploy''" "''_posts/2024-03-05-hello.md''"
        Map.empty Map.empty "?T ''_posts/2024-03-05-hello.md''"
        "''2024''" "''03''" "''05''" "''hello''" 2024 3 5 "[]" "[]"]
    by (simp add: Template_init_plain stem_hello dv2024 dv03 dv05 vd get_default_def)
  have b: ?B
    using Post_init_filename [of ?E "''_deploy''" "''_posts/2024-03-hello.md''"
        Map.empty Map.empty]
    by (simp add: stem_few)
  have c: ?C
    using Post_init_filename [of ?E "''_deploy''" "''_posts/2024-mar-05-x.md''"
        Map.empty Map.empty _ "''2024''" "''mar''" "''05''" "''x''"]
    by (simp add: stem_mar pi_mar)
  have d: ?D
    using Post_init_filename [of ?E "''_deploy''" "''_posts/2024-13-01-x.md''"
        Map.empty Map.empty _ "''2024''" "''13''" "''01''" "''x''" 2024 13 1]
    by (simp add: stem_13 py_int_digits [OF dv2024] py_int_digits [OF dv13]
          py_int_digits [OF dv01] nvd)
  from a b c d show ?thesis by blast
qed

text \<open>
  C1 as stated fails: the stem \<open>2024-13-01-x\<close> has numeric date parts, and the
  construction raises ValueError, since there is no month 13.
\<close>

theorem Post_init_month_13:
  "Post_init \<lparr>read_file = (\<lambda>f. Inr ''Hi''), yaml_load = (\<lambda>t. Inl YAMLError),
       transformers = Map.empty, render_template = (\<lambda>t c. Inr t)\<rparr>
     ''_deploy'' ''_posts/2024-13-01-x.md'' Map.empty Map.empty = Inl ValueError"
proof -
  have 3: "(3::nat) = Suc (Suc (Suc 0))" by simp
  have sp: "split_max CHR ''-'' 3 ''2024-13-01-x'' = [''2024'', ''13'', ''01'', ''x'']"
    unfolding 3 by simp
  have pd: "post_date ''2024'' ''13'' ''01'' = Inl ValueError"
    by (simp add: post_date_def py_int_digits [OF dv2024] py_int_digits [OF dv13]
          py_int_digits [OF dv01] datetime_def valid_date_def)
  show ?thesis
    by (simp add: Post_init_def Template_init_plain stem_13 sp pd)
qed

text \<open>
  C10. After a successful construction the key \<open>category\<close> is absent from the post's
  context and \<open>categories\<close> is bound to a list of strings; when the merged context had
  neither key, the list is empty.
\<close>

theorem Post_init_categories:
  assumes "Post_init E deploy fname ls c = Inr P"
  shows "\<exists>T cs. Template_init E deploy fname ls c = Inr T \<and>
           ctx_of (template P) (VStr ''category'') = None \<and>
           ctx_of (template P) (VStr ''categories'') = Some (VList (map VStr cs)) \<and>
           (ctx_of T (VStr ''category'') = None \<and> ctx_of T (VStr ''categories'') = None
              \<longrightarrow> cs = [])"
proof -
  from Post_init_inv [OF assms] obtain T yi mi di c' where
    T: "Template_init E deploy fname ls c = Inr T"
    and sc: "set_categories ((ctx_of T)(VStr ''date'' \<mapsto> VDate yi mi di,
                VStr ''url'' \<mapsto> VStr (post_url (year P) (month P) (day P) (slug P)),
                VStr ''path'' \<mapsto> VStr (post_path (year P) (month P) (day P)))) = Inr c'"
    and P: "template P = T\<lparr>ctx_of := c'\<rparr>"
    by blast
  from set_categories_inv [OF sc] obtain a b where
    ga: "get_default ((ctx_of T)(VStr ''date'' \<mapsto> VDate yi mi di,
                VStr ''url'' \<mapsto> VStr (post_url (year P) (month P) (day P) (slug P)),
                VStr ''path'' \<mapsto> VStr (post_path (year P) (month P) (day P))))
             ''category'' (VStr []) = VStr a"
    and gb: "get_default ((ctx_of T)(VStr ''date'' \<mapsto> VDate yi mi di,
                VStr ''url'' \<mapsto> VStr (post_url (year P) (month P) (day P) (slug P)),
                VStr ''path'' \<mapsto> VStr (post_path (year P) (month P) (day P))))
             ''categories'' (VStr []) = VStr b"
    and c1: "c' (VStr ''category'') = None"
    and c2: "c' (VStr ''categories'') = Some (VList (map VStr (normalize_cats (a @ '','' @ b))))"
    by blast
  have "ctx_of T (VStr ''category'') = None \<and> ctx_of T (VStr ''categories'') = None
          \<longrightarrow> normalize_cats (a @ '','' @ b) = []"
    using ga gb normalize_cats_empty by (auto simp: get_default_def)
  with T P c1 c2 show ?thesis by auto
qed

theorem Post_init_categories_witness:
  "\<exists>P. Post_init \<lparr>read_file = (\<lambda>f. Inr ''Hi''), yaml_load = (\<lambda>t. Inl YAMLError),
            transformers = Map.empty, render_template = (\<lambda>t c. Inr t)\<rparr>
          ''_deploy'' ''_posts/2024-03-05-hello.md'' Map.empty Map.empty = Inr P \<and>
        ctx_of (template P) (VStr ''category'') = None \<and>
        ctx_of (template P) (VStr ''categories'') = Some (VList [])"
proof -
  let ?E = "\<lparr>read_file = (\<lambda>f. Inr ''Hi''), yaml_load = (\<lambda>t. Inl YAMLError),
            transformers = Map.empty, render_template = (\<lambda>t c. Inr t)\<rparr>"
  from Post_init_hello obtain P where
    P: "Post_init ?E ''_deploy'' ''_posts/2024-03-05-hello.md'' Map.empty Map.empty = Inr P"
    by blast
  from Post_init_categories [OF P] show ?thesis
    using P by (auto simp: Template_init_plain)
qed

section \<open>Categories and the write path\<close>

lemma normalize_blank: "normalize_cats ([] @ '','' @ ''a, , b'') = [''a'', [], ''b'']"
  by (simp add: normalize_cats_def split_def strip_def is_space_def)

lemma renormalize_blank: "normalize_cats (''a'' @ '','' @ [] @ '','' @ ''b'') = [''a'', ''b'']"
  by (simp add: normalize_cats_def split_def strip_def is_space_def)

lemma join3_plain:
  assumes "a \<noteq> []" "CHR ''/'' \<notin> set a" "b \<noteq> []" "CHR ''/'' \<notin> set b" "take 1 c \<noteq> ''/''"
  shows "os_path_join a [b, c] = a @ ''/'' @ b @ ''/'' @ c"
proof -
  have la: "last a \<noteq> CHR ''/''" using assms last_in_set by metis
  have lb: "last b \<noteq> CHR ''/''" using assms last_in_set by metis
  have tb: "take 1 b \<noteq> ''/''" using assms by (cases b) auto
  have 1: "join2 a b = a @ ''/'' @ b" using assms(1) la tb by (rule join2_plain)
  have 2: "join2 (a @ ''/'' @ b) c = (a @ ''/'' @ b) @ ''/'' @ c"
    using assms lb by (intro join2_plain) auto
  show ?thesis unfolding os_path_join_def using 1 2 by simp
qed

lemma no_slash_take: "CHR ''/'' \<notin> set x \<Longrightarrow> take 1 x \<noteq> ''/''"
  by (cases x) auto

lemma Post_init_parts:
  assumes "Post_init E deploy fname ls c = Inr P"
  shows "CHR ''/'' \<notin> set (year P) \<and> CHR ''/'' \<notin> set (month P) \<and>
         CHR ''/'' \<notin> set (day P) \<and> CHR ''/'' \<notin> set (slug P) \<and>
         year P \<noteq> [] \<and> month P \<noteq> [] \<and> day P \<noteq> [] \<and>
         DEPLOY_DIR (template P) = deploy"
proof -
  from Post_init_inv [OF assms] obtain T yi mi di c' where
    T: "Template_init E deploy fname ls c = Inr T"
    and sp: "split_max CHR ''-'' 3 (fst (splitext (basename fname))) =
               [year P, month P, day P, slug P]"
    and pi: "py_int (year P) = Some yi" "py_int (month P) = Some mi" "py_int (day P) = Some di"
    and P: "template P = T\<lparr>ctx_of := c'\<rparr>"
    by blast
  have ns: "CHR ''/'' \<notin> set (fst (splitext (basename fname)))"
    using splitext_subset [of "basename fname"] basename_no_slash [of fname] by auto
  have sub: "\<And>x. x \<in> set [year P, month P, day P, slug P] \<Longrightarrow> CHR ''/'' \<notin> set x"
    using split_max_subset [of _ "CHR ''-''" 3 "fst (splitext (basename fname))"] ns
    unfolding sp by blast
  have dd: "DEPLOY_DIR T = deploy"
    using T by (auto simp: Template_init_def split: sum.splits prod.splits)
  show ?thesis
    using sub pi P dd by (auto dest: py_int_nonempty)
qed

text \<open>
  C6 (the code at the failing input). The metadata \<open>categories: a, , b\<close> has a token
  that is one space. The test \<open>if c\<close> runs before \<open>strip\<close>, so the token is kept and
  stripped to the empty string: the list is \<open>['a', '', 'b']\<close>. Joining that list with
  commas and normalizing again gives \<open>['a', 'b']\<close>, another list.
\<close>

theorem categories_blank_token:
  "(\<exists>c'. set_categories [VStr ''categories'' \<mapsto> VStr ''a, , b''] = Inr c' \<and>
         c' (VStr ''categories'') = Some (VList [VStr ''a'', VStr [], VStr ''b''])) \<and>
   normalize_cats (''a'' @ '','' @ [] @ '','' @ ''b'') = [''a'', ''b'']"
proof -
  have "get_default [VStr ''categories'' \<mapsto> VStr ''a, , b''] ''category'' (VStr []) = VStr []"
    by (simp add: get_default_def)
  moreover have "get_default [VStr ''categories'' \<mapsto> VStr ''a, , b''] ''categories'' (VStr [])
      = VStr ''a, , b''"
    by (simp add: get_default_def)
  ultimately obtain c' where
    "set_categories [VStr ''categories'' \<mapsto> VStr ''a, , b''] = Inr c'"
    "c' (VStr ''categories'') = Some (VList (map VStr (normalize_cats ([] @ '','' @ ''a, , b''))))"
    using set_categories_lookup by blast
  then show ?thesis
    using normalize_blank renormalize_blank by (intro conjI exI [of _ c']) simp_all
qed

lemma path_parts_from_append:
  "CHR ''/'' \<notin> set a \<Longrightarrow> path_parts_from cur (a @ rest) = path_parts_from (cur @ a) rest"
  by (induction a arbitrary: cur) auto

lemma path_parts_from_sep:
  "CHR ''/'' \<notin> set a \<Longrightarrow>
   path_parts_from cur (a @ CHR ''/'' # rest) =
     (if cur @ a = [] then [] else [cur @ a]) @ path_parts_from [] rest"
  by (simp add: path_parts_from_append)

lemma path_parts_index: "path_parts_from [] ''index.html'' = [''index.html'']"
  by simp

lemma path_parts_post:
  assumes "CHR ''/'' \<notin> set y" "CHR ''/'' \<notin> set m" "CHR ''/'' \<notin> set d" "CHR ''/'' \<notin> set s"
    and "y \<noteq> []" "m \<noteq> []" "d \<noteq> []"
  shows "path_parts (y @ ''/'' @ m @ ''/'' @ d @ ''/'' @ s @ ''/index.html'') =
           [y, m, d] @ (if s = [] then [] else [s]) @ [''index.html'']"
    and "path_parts (y @ ''/'' @ m @ ''/'' @ d @ ''/index.html'') = [y, m, d, ''index.html'']"
  using assms
  by (simp_all add: path_parts_def path_parts_from_sep path_parts_index
        del: path_parts_from.simps)

lemma Post_write_path_value:
  assumes "Post_init E deploy fname ls c = Inr P"
  shows "Post_write_path P =
           year P @ ''/'' @ month P @ ''/'' @ day P @
           (if slug P = [] then [] else ''/'' @ slug P) @ ''/index.html''"
proof -
  from Post_init_parts [OF assms] have
    ns: "CHR ''/'' \<notin> set (year P)" "CHR ''/'' \<notin> set (month P)"
        "CHR ''/'' \<notin> set (day P)" "CHR ''/'' \<notin> set (slug P)"
    and ne: "year P \<noteq> []" "month P \<noteq> []" "day P \<noteq> []"
    by auto
  have pp: "post_path (year P) (month P) (day P) = year P @ ''/'' @ month P @ ''/'' @ day P"
    unfolding post_path_def using ne ns by (intro join3_plain no_slash_take) auto
  let ?p = "year P @ ''/'' @ month P @ ''/'' @ day P"
  have l1: "last ?p \<noteq> CHR ''/''" using ne(3) ns(3) last_in_set by fastforce
  show ?thesis
  proof (cases "slug P = []")
    case True
    have ld: "last (day P) \<noteq> CHR ''/''" using ne(3) ns(3) last_in_set by metis
    have "join2 ?p [] = ?p @ ''/''" using ne(3) ld by (simp add: join2_def)
    moreover have "join2 (?p @ ''/'') ''index.html'' = ?p @ ''/'' @ ''index.html''"
      by (simp add: join2_def)
    ultimately show ?thesis
      unfolding Post_write_path_def pp os_path_join_def using True by simp
  next
    case False
    have 1: "join2 ?p (slug P) = ?p @ ''/'' @ slug P"
      using l1 ns(4) ne by (intro join2_plain no_slash_take) auto
    have l2: "last (?p @ ''/'' @ slug P) \<noteq> CHR ''/''"
      using False ns(4) last_in_set by fastforce
    have 2: "join2 (?p @ ''/'' @ slug P) ''index.html'' =
               (?p @ ''/'' @ slug P) @ ''/'' @ ''index.html''"
      using l2 by (intro join2_plain) auto
    show ?thesis
      unfolding Post_write_path_def pp os_path_join_def using 1 2 False by simp
  qed
qed

lemma Post_init_template:
  assumes "Post_init E deploy fname ls c = Inr P"
    and "Template_init E deploy fname ls c = Inr T"
  shows "DEPLOY_DIR (template P) = DEPLOY_DIR T \<and> filename (template P) = filename T \<and>
         layouts (template P) = layouts T \<and> content (template P) = content T \<and>
         (\<forall>k. k \<notin> {VStr ''date'', VStr ''url'', VStr ''path'', VStr ''category'',
                    VStr ''categories''} \<longrightarrow> ctx_of (template P) k = ctx_of T k)"
proof -
  from Post_init_inv [OF assms(1)] assms(2) obtain c1 c' where
    sc: "set_categories c1 = Inr c'"
    and c1: "\<forall>k. k \<notin> {VStr ''date'', VStr ''url'', VStr ''path''} \<longrightarrow> c1 k = ctx_of T k"
    and P: "template P = T\<lparr>ctx_of := c'\<rparr>"
    by auto
  from sc have "\<forall>k. k \<noteq> VStr ''category'' \<and> k \<noteq> VStr ''categories'' \<longrightarrow> c' k = c1 k"
    by (auto simp: set_categories_def restrict_map_def split: pyval.splits)
  with c1 P show ?thesis by simp
qed

lemma m4: "RE_YAML_match ''---\<newline>layout: post\<newline>permalink: /custom/\<newline>---\<newline>Hi''
             = (Some ''\<newline>layout: post\<newline>permalink: /custom/\<newline>'', ''\<newline>Hi'')"
  by code_simp

lemma Template_init_perma:
  "Template_init perma_env deploy fname ls Map.empty =
     Inr \<lparr>DEPLOY_DIR = deploy, filename = fname, layouts = ls,
          ctx_of = [VStr ''layout'' \<mapsto> VStr ''post'', VStr ''permalink'' \<mapsto> VStr ''/custom/''],
          content = ''\<newline>Hi''\<rparr>"
  by (simp add: Template_init_def read_yaml_def perma_env_def m4)

lemma perma_env_simps:
  "render_template perma_env t c =
     Inr (t @ (case c (VStr ''content'') of Some (VStr s) \<Rightarrow> s | _ \<Rightarrow> []))"
  "transform perma_env f b = Inr b"
  by (simp_all add: perma_env_def transform_def)

lemma perma_parents:
  "layouts_get perma_layouts (VStr ''post'') =
     Inr (Some \<lparr>l_name = ''post'', l_content = ''<p>'', l_context = Map.empty\<rparr>)"
  "layouts_get perma_layouts
     (layout_of \<lparr>l_name = ''post'', l_content = ''<p>'', l_context = Map.empty\<rparr>) = Inr None"
  by (simp_all add: perma_layouts_def layouts_get_def layout_of_def)

lemma Post_perma:
  assumes stem: "fst (splitext (basename fname)) = ''2024-03-05-'' @ s"
  shows "\<exists>P. Post_init perma_env ''_deploy'' fname perma_layouts Map.empty = Inr P \<and>
           year P = ''2024'' \<and> month P = ''03'' \<and> day P = ''05'' \<and> slug P = s \<and>
           permalink P = VStr ''/custom/'' \<and>
           layout perma_env (template P) = Some (Inr ''<p>\<newline>Hi'')"
proof -
  have vd: "valid_date 2024 3 5" by (simp add: valid_date_def days_in_month_def)
  have "\<exists>P. Post_init perma_env ''_deploy'' fname perma_layouts Map.empty = Inr P \<and>
          year P = ''2024'' \<and> month P = ''03'' \<and> day P = ''05'' \<and> slug P = s"
    using Post_init_success [of perma_env "''_deploy''" fname
        perma_layouts Map.empty _ "''2024''" "''03''" "''05''" s 2024 3 5 "[]" "[]",
        OF Template_init_perma]
    by (simp add: stem dv2024 dv03 dv05 vd get_default_def) blast
  then obtain P where
    P: "Post_init perma_env ''_deploy'' fname perma_layouts Map.empty = Inr P"
    and f: "year P = ''2024''" "month P = ''03''" "day P = ''05''" "slug P = s"
    by blast
  from Post_init_template [OF P Template_init_perma] have
    t: "filename (template P) = fname" "layouts (template P) = perma_layouts"
       "content (template P) = ''\<newline>Hi''"
    and k: "ctx_of (template P) (VStr ''layout'') = Some (VStr ''post'')"
           "ctx_of (template P) (VStr ''permalink'') = Some (VStr ''/custom/'')"
           "ctx_of (template P) (VStr ''content'') = None"
    by simp_all
  have pl: "permalink P = VStr ''/custom/''" by (simp add: permalink_def get_default_def k)
  have r: "render perma_env (template P) = Inr ''<p>\<newline>Hi''"
    by (simp add: render_def perma_env_simps t k getattr_def perma_parents)
  have "layout perma_env (template P) = Some (Inr ''<p>\<newline>Hi'')"
    by (simp add: layout_def r getattr_def t k perma_parents layout_loop.simps)
  with P f pl show ?thesis by blast
qed

lemma stem_hello_parts: "fst (splitext (basename ''_posts/2024-03-05-hello.md'')) = ''2024-03-05-'' @ ''hello''"
  by (simp add: splitext_def basename_def Let_def)

lemma stem_noslug_parts: "fst (splitext (basename ''_posts/2024-03-05-.md'')) = ''2024-03-05-'' @ []"
  by (simp add: splitext_def basename_def Let_def)

text \<open>
  C7. For every constructed Post, whatever its metadata says about \<open>permalink\<close>,
  \<open>write\<close> writes what \<open>layout\<close> returns to the file whose name is the deploy
  directory joined with the path built from the four filename parts, and writes nothing
  when \<open>layout\<close> raises or does not return. That path is
  \<open>year/month/day/slug/index.html\<close>; for an empty slug \<open>os.path.join\<close> spells it
  \<open>year/month/day/index.html\<close>, which walks through the same names as
  \<open>year/month/day//index.html\<close> and so is the same file.
\<close>

theorem Post_write_target:
  assumes "Post_init E deploy fname ls c = Inr P"
  shows "Post_write E P =
           (case layout E (template P) of
              None \<Rightarrow> None
            | Some (Inl e) \<Rightarrow> Some (Inl e)
            | Some (Inr text) \<Rightarrow>
                Some (Inr ((if deploy = [] \<or> last deploy = CHR ''/'' then deploy
                            else deploy @ ''/'') @ Post_write_path P, text))) \<and>
         (slug P \<noteq> [] \<longrightarrow>
            Post_write_path P =
              year P @ ''/'' @ month P @ ''/'' @ day P @ ''/'' @ slug P @ ''/index.html'') \<and>
         (slug P = [] \<longrightarrow>
            Post_write_path P = year P @ ''/'' @ month P @ ''/'' @ day P @ ''/index.html'') \<and>
         path_parts (Post_write_path P) =
           path_parts (year P @ ''/'' @ month P @ ''/'' @ day P @ ''/'' @ slug P @ ''/index.html'') \<and>
         path_parts (Post_write_path P) =
           [year P, month P, day P] @ (if slug P = [] then [] else [slug P]) @ [''index.html'']"
proof -
  from Post_init_parts [OF assms] have
    ns: "CHR ''/'' \<notin> set (year P)" "CHR ''/'' \<notin> set (month P)"
        "CHR ''/'' \<notin> set (day P)" "CHR ''/'' \<notin> set (slug P)"
    and ne: "year P \<noteq> []" "month P \<noteq> []" "day P \<noteq> []"
    and dd: "DEPLOY_DIR (template P) = deploy"
    by auto
  note v = Post_write_path_value [OF assms]
  have t1: "take 1 (Post_write_path P) \<noteq> ''/''"
    unfolding v using ne(1) ns(1) by (cases "year P") auto
  have j: "os_path_join deploy [Post_write_path P] =
             (if deploy = [] \<or> last deploy = CHR ''/'' then deploy else deploy @ ''/'') @
             Post_write_path P"
    using t1 by (simp add: os_path_join_def join2_def)
  have w: "Post_write E P =
           (case layout E (template P) of
              None \<Rightarrow> None
            | Some (Inl e) \<Rightarrow> Some (Inl e)
            | Some (Inr text) \<Rightarrow>
                Some (Inr ((if deploy = [] \<or> last deploy = CHR ''/'' then deploy
                            else deploy @ ''/'') @ Post_write_path P, text)))"
    unfolding Post_write_def Template_write_def dd j ..
  have p1: "path_parts (Post_write_path P) =
          [year P, month P, day P] @ (if slug P = [] then [] else [slug P]) @ [''index.html'']"
    unfolding v using path_parts_post [OF ns ne] by (cases "slug P = []") simp_all
  have p2: "path_parts (year P @ ''/'' @ month P @ ''/'' @ day P @ ''/'' @ slug P @ ''/index.html'') =
          [year P, month P, day P] @ (if slug P = [] then [] else [slug P]) @ [''index.html'']"
    using path_parts_post(1) [OF ns ne] .
  show ?thesis
    using w v p1 p2 by simp
qed

text \<open>
  The theorem at two posts whose metadata sets \<open>layout\<close> and a \<open>permalink\<close> of
  \<open>/custom/\<close>: one with the slug \<open>hello\<close> and one with an empty slug.
\<close>

theorem Post_write_target_witness:
  "(\<exists>P. Post_init perma_env ''_deploy'' ''_posts/2024-03-05-hello.md'' perma_layouts Map.empty
          = Inr P \<and>
        permalink P = VStr ''/custom/'' \<and>
        Post_write perma_env P =
          Some (Inr (''_deploy/2024/03/05/hello/index.html'', ''<p>\<newline>Hi'')) \<and>
        path_parts (Post_write_path P) = [''2024'', ''03'', ''05'', ''hello'', ''index.html'']) \<and>
   (\<exists>P. Post_init perma_env ''_deploy'' ''_posts/2024-03-05-.md'' perma_layouts Map.empty
          = Inr P \<and>
        permalink P = VStr ''/custom/'' \<and>
        Post_write perma_env P = Some (Inr (''_deploy/2024/03/05/index.html'', ''<p>\<newline>Hi'')) \<and>
        path_parts (Post_write_path P) = path_parts ''2024/03/05//index.html'')"
proof (rule conjI)
  from Post_perma [OF stem_hello_parts] obtain P where
    P: "Post_init perma_env ''_deploy'' ''_posts/2024-03-05-hello.md'' perma_layouts Map.empty
          = Inr P"
    and f: "year P = ''2024''" "month P = ''03''" "day P = ''05''" "slug P = ''hello''"
    and pl: "permalink P = VStr ''/custom/''"
    and l: "layout perma_env (template P) = Some (Inr ''<p>\<newline>Hi'')"
    by blast
  from Post_write_target [OF P] f l have
    "Post_write perma_env P =
       Some (Inr (''_deploy/2024/03/05/hello/index.html'', ''<p>\<newline>Hi''))"
    "path_parts (Post_write_path P) = [''2024'', ''03'', ''05'', ''hello'', ''index.html'']"
    by (simp_all add: path_parts_def)
  with P pl show "\<exists>P. Post_init perma_env ''_deploy'' ''_posts/2024-03-05-hello.md''
          perma_layouts Map.empty = Inr P \<and>
        permalink P = VStr ''/custom/'' \<and>
        Post_write perma_env P =
          Some (Inr (''_deploy/2024/03/05/hello/index.html'', ''<p>\<newline>Hi'')) \<and>
        path_parts (Post_write_path P) = [''2024'', ''03'', ''05'', ''hello'', ''index.html'']"
    by blast
next
  from Post_perma [OF stem_noslug_parts] obtain P where
    P: "Post_init perma_env ''_deploy'' ''_posts/2024-03-05-.md'' perma_layouts Map.empty
          = Inr P"
    and f: "year P = ''2024''" "month P = ''03''" "day P = ''05''" "slug P = []"
    and pl: "permalink P = VStr ''/custom/''"
    and l: "layout perma_env (template P) = Some (Inr ''<p>\<newline>Hi'')"
    by blast
  from Post_write_target [OF P] f l have
    "Post_write perma_env P = Some (Inr (''_deploy/2024/03/05/index.html'', ''<p>\<newline>Hi''))"
    "path_parts (Post_write_path P) = path_parts ''2024/03/05//index.html''"
    by (simp_all add: path_parts_def)
  with P pl show "\<exists>P. Post_init perma_env ''_deploy'' ''_posts/2024-03-05-.md''
          perma_layouts Map.empty = Inr P \<and>
        permalink P = VStr ''/custom/'' \<and>
        Post_write perma_env P = Some (Inr (''_deploy/2024/03/05/index.html'', ''<p>\<newline>Hi'')) \<and>
        path_parts (Post_write_path P) = path_parts ''2024/03/05//index.html''"
    by blast
qed

section \<open>Rendering and the layout chain\<close>

lemma layouts_get_absent:
  "hashable l \<Longrightarrow> l \<notin> VStr ` dom ls \<Longrightarrow> layouts_get ls l = Inr None"
  by (cases l) (auto simp: layouts_get_def)

lemma layout_loop_terminates:
  "chain_ends ls n l \<Longrightarrow> \<exists>r. layout_loop E ls c cur l = Some r"
proof (induction n arbitrary: cur l)
  case 0
  then show ?case by (cases l) (simp_all add: layout_loop.simps)
next
  case (Suc n)
  show ?case
  proof (cases l)
    case None
    then show ?thesis by (simp add: layout_loop.simps)
  next
    case (Some L)
    show ?thesis
    proof (cases "render_template E (l_content L) (c(VStr ''content'' \<mapsto> VStr cur))")
      case (Inl e)
      then show ?thesis using Some by (simp add: layout_loop.simps)
    next
      case (Inr s)
      show ?thesis
      proof (cases "layouts_get ls (layout_of L)")
        case (Inl e)
        then show ?thesis using Some Inr by (simp add: layout_loop.simps)
      next
        case r: (Inr l')
        with Suc.prems Some have "chain_ends ls n l'" by simp
        from Suc.IH [OF this, of s] show ?thesis
          using Some Inr r by (subst layout_loop.simps) simp
      qed
    qed
  qed
qed

lemma plain_env_simps:
  "render_template plain_env t c = Inr t"
  "transform plain_env f b = Inr b"
  by (simp_all add: plain_env_def transform_def)

lemma cyc_parents:
  "layouts_get cyc_layouts (layout_of cyc_a) = Inr (Some cyc_b)"
  "layouts_get cyc_layouts (layout_of cyc_b) = Inr (Some cyc_a)"
  "layouts_get cyc_layouts (VStr ''a'') = Inr (Some cyc_a)"
  "l_content cyc_a = ''<a>''" "l_content cyc_b = ''<b>''"
  by (simp_all add: cyc_layouts_def cyc_a_def cyc_b_def layouts_get_def layout_of_def)

lemma cycle_never_returns:
  assumes "layout_loop E ls c cur l = Some y"
  shows "\<not> (E = plain_env \<and> ls = cyc_layouts \<and> (l = Some cyc_a \<or> l = Some cyc_b))"
proof (rule layout_loop.raw_induct
    [where P = "\<lambda>E ls c cur l y.
       \<not> (E = plain_env \<and> ls = cyc_layouts \<and> (l = Some cyc_a \<or> l = Some cyc_b))",
     OF _ assms], goal_cases)
  case (1 loop E ls c cur l y)
  show ?case
  proof
    assume h: "E = plain_env \<and> ls = cyc_layouts \<and> (l = Some cyc_a \<or> l = Some cyc_b)"
    then consider (a) "l = Some cyc_a" | (b) "l = Some cyc_b" by blast
    then show False
    proof cases
      case a
      with h 1(2) have "loop plain_env cyc_layouts c ''<a>'' (Some cyc_b) = Some y"
        by (simp add: plain_env_simps cyc_parents)
      from 1(1) [OF this] show False by simp
    next
      case b
      with h 1(2) have "loop plain_env cyc_layouts c ''<b>'' (Some cyc_a) = Some y"
        by (simp add: plain_env_simps cyc_parents)
      from 1(1) [OF this] show False by simp
    qed
  qed
qed

text \<open>
  C3. Let the context of a document bind \<open>layout\<close> to a hashable value that is not a
  key of the layout mapping, and let the rendering of the document's own body succeed
  with result \<open>body\<close>. Then \<open>render\<close> returns \<open>body\<close>, and \<open>layout\<close> returns
  \<open>body\<close> as well: the chain is empty.
\<close>

theorem unknown_layout_renders_content:
  assumes "transform E (filename T) (content T) = Inr src"
    and "render_template E src (ctx_of T) = Inr body"
    and "ctx_of T (VStr ''layout'') = Some l"
    and "hashable l" and "l \<notin> VStr ` dom (layouts T)"
  shows "render E T = Inr body \<and> layout E T = Some (Inr body)"
proof -
  have g: "layouts_get (layouts T) l = Inr None"
    using assms(4,5) by (rule layouts_get_absent)
  have r: "render E T = Inr body"
    using assms(1-3) g by (simp add: render_def getattr_def)
  moreover have "layout E T = Some (Inr body)"
    using r assms(3) g by (simp add: layout_def getattr_def layout_loop.simps)
  ultimately show ?thesis ..
qed

theorem unknown_layout_renders_content_witness:
  "render plain_env stray_page = Inr ''Hi'' \<and> layout plain_env stray_page = Some (Inr ''Hi'')"
  using unknown_layout_renders_content [of plain_env stray_page "''Hi''" "''Hi''" "VStr ''missing''"]
  by (simp add: plain_env_simps stray_page_def)

text \<open>
  C9. When the merged context has no key \<open>layout\<close>, \<open>render\<close> and \<open>layout\<close> never
  return a value: both raise. When the rendering of the document's own body succeeds, the
  exception is the KeyError of the attribute-style lookup \<open>ctx.layout\<close>.
\<close>

theorem missing_layout_key_raises:
  assumes "ctx_of T (VStr ''layout'') = None"
  shows "isl (render E T) \<and> (\<exists>e. layout E T = Some (Inl e)) \<and>
         (transform E (filename T) (content T) = Inr src \<and>
          render_template E src (ctx_of T) = Inr body
          \<longrightarrow> render E T = Inl (KeyError ''layout'') \<and>
              layout E T = Some (Inl (KeyError ''layout'')))"
proof -
  have a: "isl (render E T)"
    using assms by (simp add: render_def getattr_def split: sum.splits)
  then obtain e where e: "render E T = Inl e" by (cases "render E T") auto
  then have b: "layout E T = Some (Inl e)" by (simp add: layout_def)
  have c: "transform E (filename T) (content T) = Inr src \<and>
          render_template E src (ctx_of T) = Inr body
          \<longrightarrow> render E T = Inl (KeyError ''layout'')"
    using assms by (simp add: render_def getattr_def)
  show ?thesis using a b c e by auto
qed

theorem missing_layout_key_raises_witness:
  "render plain_env bare_page = Inl (KeyError ''layout'') \<and>
   layout plain_env bare_page = Some (Inl (KeyError ''layout''))"
  using missing_layout_key_raises [of bare_page plain_env "''Hi''" "''Hi''"]
  by (simp add: plain_env_simps bare_page_def)

lemma layout_loop_never_returns:
  assumes "layout_loop E ls c cur l = Some y"
  shows "\<not> ((\<forall>t c. \<exists>s. render_template E t c = Inr s) \<and> (\<forall>n. \<not> chain_ends ls n l))"
proof (rule layout_loop.raw_induct
    [where P = "\<lambda>E ls c cur l y.
       \<not> ((\<forall>t c. \<exists>s. render_template E t c = Inr s) \<and> (\<forall>n. \<not> chain_ends ls n l))",
     OF _ assms], goal_cases)
  case (1 loop E ls c cur l y)
  show ?case
  proof
    assume h: "(\<forall>t c. \<exists>s. render_template E t c = Inr s) \<and> (\<forall>n. \<not> chain_ends ls n l)"
    then have rs: "\<forall>t c. \<exists>s. render_template E t c = Inr s"
      and ne: "\<And>n. \<not> chain_ends ls n l" by auto
    from ne [of 0] obtain L where L: "l = Some L" by (cases l) auto
    from rs obtain s where
      s: "render_template E (l_content L) (c(VStr ''content'' \<mapsto> VStr cur)) = Inr s" by blast
    from ne [of "Suc 0"] L obtain l' where l': "layouts_get ls (layout_of L) = Inr l'"
      by (cases "layouts_get ls (layout_of L)") auto
    have ne': "\<not> chain_ends ls n l'" for n using ne [of "Suc n"] L l' by simp
    from 1(2) L s l' have "loop E ls c s l' = Some y" by simp
    from 1(1) [OF this] rs ne' show False by blast
  qed
qed

lemma wrap_env_simps:
  "render_template wrap_env t c = Inr (t @ (case c (VStr ''content'') of Some (VStr s) \<Rightarrow> s | _ \<Rightarrow> []))"
  "transform wrap_env f b = Inr b"
  by (simp_all add: wrap_env_def transform_def)

lemma chain_parents:
  "layouts_get chain_layouts (VStr ''a'') = Inr (Some inner_layout)"
  "layouts_get chain_layouts (layout_of inner_layout) = Inr (Some middle_layout)"
  "layouts_get chain_layouts (layout_of middle_layout) = Inr (Some outer_layout)"
  "layouts_get chain_layouts (layout_of outer_layout) = Inr None"
  "l_content inner_layout = ''<a>''" "l_content middle_layout = ''<b>''"
  "l_content outer_layout = ''<c>''"
  by (simp_all add: chain_layouts_def inner_layout_def middle_layout_def outer_layout_def
        layouts_get_def layout_of_def)

lemma chain_page_ends: "chain_ends chain_layouts 3 (Some inner_layout)"
proof -
  have 3: "(3::nat) = Suc (Suc (Suc 0))" by simp
  show ?thesis unfolding 3 by (simp add: chain_parents)
qed

lemma chain_page_layout: "layout wrap_env chain_page = Some (Inr ''<c><b><a>Hi'')"
proof -
  have r: "render wrap_env chain_page = Inr ''<a>Hi''"
    by (simp add: render_def wrap_env_simps chain_page_def getattr_def chain_parents)
  have c: "ctx_of chain_page = [VStr ''layout'' \<mapsto> VStr ''a'']" "layouts chain_page = chain_layouts"
    by (simp_all add: chain_page_def)
  have l3: "layout_loop wrap_env chain_layouts k cur None = Some (Inr cur)" for k cur
    by (simp add: layout_loop.simps)
  have l2: "layout_loop wrap_env chain_layouts k cur (Some outer_layout) = Some (Inr (''<c>'' @ cur))" for k cur
    by (subst layout_loop.simps) (simp add: wrap_env_simps chain_parents l3)
  have l1: "layout_loop wrap_env chain_layouts k cur (Some middle_layout) = Some (Inr (''<c>'' @ ''<b>'' @ cur))" for k cur
    by (subst layout_loop.simps) (simp add: wrap_env_simps chain_parents l2)
  show ?thesis
    by (simp add: layout_def r getattr_def c chain_parents l1)
qed

lemma self_parents:
  "layouts_get self_layouts (VStr ''s'') = Inr (Some self_layout)"
  "layouts_get self_layouts (layout_of self_layout) = Inr (Some self_layout)"
  "l_content self_layout = ''<s>''"
  by (simp_all add: self_layouts_def self_layout_def layouts_get_def layout_of_def)

lemma self_never_ends: "\<not> chain_ends self_layouts n (Some self_layout)"
  by (induction n) (simp_all add: self_parents)

lemma self_page_render: "render wrap_env self_page = Inr ''<s>Hi''"
  by (simp add: render_def wrap_env_simps self_page_def getattr_def self_parents)

text \<open>
  C4, as amended. \<open>layout\<close> returns (a string or an exception) whenever the parent
  chain of the document's layout ends after finitely many steps, that is, reaches a
  layout whose declared parent is not in the mapping. When the chain never ends, which in
  a finite mapping means that it comes back to a layout, and the template engine succeeds
  on every input, \<open>layout\<close> does not return for any document whose own rendering
  succeeds.
\<close>

theorem layout_terminates_on_finite_chain:
  "((\<forall>l L. ctx_of T (VStr ''layout'') = Some l \<longrightarrow> layouts_get (layouts T) l = Inr (Some L) \<longrightarrow>
       (\<exists>n. chain_ends (layouts T) n (Some L))) \<longrightarrow>
    (\<exists>r. layout E T = Some r)) \<and>
   ((\<forall>t c. \<exists>s. render_template E t c = Inr s) \<longrightarrow>
    (\<forall>r l L. render E T = Inr r \<longrightarrow> ctx_of T (VStr ''layout'') = Some l \<longrightarrow>
       layouts_get (layouts T) l = Inr (Some L) \<longrightarrow>
       (\<forall>n. \<not> chain_ends (layouts T) n (Some L)) \<longrightarrow>
       layout E T = None))"
proof (intro conjI impI allI)
  assume fin: "\<forall>l L. ctx_of T (VStr ''layout'') = Some l \<longrightarrow>
      layouts_get (layouts T) l = Inr (Some L) \<longrightarrow> (\<exists>n. chain_ends (layouts T) n (Some L))"
  show "\<exists>r. layout E T = Some r"
  proof (cases "render E T")
    case (Inl e)
    then show ?thesis by (simp add: layout_def)
  next
    case (Inr r)
    show ?thesis
    proof (cases "ctx_of T (VStr ''layout'')")
      case None
      then show ?thesis using Inr by (simp add: layout_def getattr_def)
    next
      case (Some l)
      show ?thesis
      proof (cases "layouts_get (layouts T) l")
        case (Inl e)
        then show ?thesis using Inr Some by (simp add: layout_def getattr_def)
      next
        case g: (Inr lo)
        show ?thesis
        proof (cases lo)
          case None
          then show ?thesis
            using Inr Some g by (simp add: layout_def getattr_def layout_loop.simps)
        next
          case L: (Some L)
          from fin Some g L obtain n where ce: "chain_ends (layouts T) n (Some L)" by blast
          show ?thesis
          proof (cases "layouts_get (layouts T) (layout_of L)")
            case (Inl e)
            then show ?thesis using Inr Some g L by (simp add: layout_def getattr_def)
          next
            case p: (Inr l')
            from ce p obtain k where "chain_ends (layouts T) k l'"
              by (cases n) auto
            from layout_loop_terminates [OF this, of E "ctx_of T" r] show ?thesis
              using Inr Some g L p by (simp add: layout_def getattr_def)
          qed
        qed
      qed
    qed
  qed
next
  fix r l L
  assume rs: "\<forall>t c. \<exists>s. render_template E t c = Inr s"
    and r: "render E T = Inr r"
    and l: "ctx_of T (VStr ''layout'') = Some l"
    and g: "layouts_get (layouts T) l = Inr (Some L)"
    and ne: "\<forall>n. \<not> chain_ends (layouts T) n (Some L)"
  from ne have "\<not> chain_ends (layouts T) (Suc 0) (Some L)" by blast
  then obtain l' where p: "layouts_get (layouts T) (layout_of L) = Inr l'"
    by (cases "layouts_get (layouts T) (layout_of L)") auto
  have ne': "\<forall>n. \<not> chain_ends (layouts T) n l'"
  proof
    fix n from ne have "\<not> chain_ends (layouts T) (Suc n) (Some L)" by blast
    then show "\<not> chain_ends (layouts T) n l'" using p by simp
  qed
  have "layout_loop E (layouts T) (ctx_of T) r l' = None"
    using layout_loop_never_returns [of E "layouts T" "ctx_of T" r l'] rs ne'
    by (cases "layout_loop E (layouts T) (ctx_of T) r l'") auto
  then show "layout E T = None"
    using r l g p by (simp add: layout_def getattr_def)
qed

text \<open>
  The theorem at a page whose layout \<open>a\<close> has the parent \<open>b\<close> and the grandparent
  \<open>c\<close>, where the loop runs twice and wraps the content in \<open>b\<close>, then in \<open>c\<close>;
  and at a page whose layout is its own parent.
\<close>

theorem layout_terminates_on_finite_chain_witness:
  "(\<exists>r. layout wrap_env chain_page = Some r) \<and>
   layout wrap_env chain_page = Some (Inr ''<c><b><a>Hi'') \<and>
   layout wrap_env self_page = None"
proof -
  have fin: "\<forall>l L. ctx_of chain_page (VStr ''layout'') = Some l \<longrightarrow>
      layouts_get (layouts chain_page) l = Inr (Some L) \<longrightarrow>
      (\<exists>n. chain_ends (layouts chain_page) n (Some L))"
  proof (intro allI impI)
    fix l L
    assume "ctx_of chain_page (VStr ''layout'') = Some l"
      and g: "layouts_get (layouts chain_page) l = Inr (Some L)"
    then have "l = VStr ''a''" by (simp add: chain_page_def)
    with g have "L = inner_layout" by (simp add: chain_page_def chain_parents)
    then show "\<exists>n. chain_ends (layouts chain_page) n (Some L)"
      using chain_page_ends by (auto simp: chain_page_def)
  qed
  have a: "\<exists>r. layout wrap_env chain_page = Some r"
    using layout_terminates_on_finite_chain [of chain_page wrap_env] fin by blast
  have rs: "\<forall>t c. \<exists>s. render_template wrap_env t c = Inr s"
    by (simp add: wrap_env_simps)
  have b: "layout wrap_env self_page = None"
    using layout_terminates_on_finite_chain [of self_page wrap_env] rs self_page_render
      self_never_ends self_parents(1)
    by (simp add: self_page_def)
  from a b chain_page_layout show ?thesis by simp
qed

text \<open>
  C4 as stated fails: with two layouts that name each other as parent and a template
  engine that always succeeds, the loop of \<open>layout\<close> never returns. There is no cycle
  guard.
\<close>

theorem layout_cycle_never_returns: "layout plain_env cyc_page = None"
proof -
  have loop: "layout_loop plain_env cyc_layouts c cur (Some cyc_b) = None" for c cur
    using cycle_never_returns [of plain_env cyc_layouts c cur "Some cyc_b"]
    by (cases "layout_loop plain_env cyc_layouts c cur (Some cyc_b)") auto
  have r: "render plain_env cyc_page = Inr ''<a>''"
    by (simp add: render_def plain_env_simps cyc_page_def getattr_def cyc_parents
          del: fun_upd_apply) (simp add: cyc_parents plain_env_simps)
  have c: "ctx_of cyc_page = [VStr ''layout'' \<mapsto> VStr ''a'']" "layouts cyc_page = cyc_layouts"
    by (simp_all add: cyc_page_def)
  show ?thesis
    by (simp add: layout_def r getattr_def c cyc_parents loop)
qed

section \<open>Copies of a context\<close>

lemma mutate_other:
  assumes "mutate h a m = Inr h'"
  shows "length h' = length h \<and> (\<forall>b. b \<noteq> a \<longrightarrow> h' ! b = h ! b)"
  using assms by (cases m) (auto split: if_splits)

lemma mutate_all_other:
  assumes "mutate_all h a ms = Inr h'"
  shows "length h' = length h \<and> (\<forall>b. b \<noteq> a \<longrightarrow> h' ! b = h ! b)"
  using assms
proof (induction ms arbitrary: h)
  case Nil
  then show ?case by simp
next
  case (Cons m ms)
  then obtain h1 where 1: "mutate h a m = Inr h1" and 2: "mutate_all h1 a ms = Inr h'"
    by (auto split: sum.splits)
  from mutate_other [OF 1] Cons.IH [OF 2] show ?case by simp
qed

text \<open>
  C5. Let \<open>c'\<close> be the copy of the AttrDict at address \<open>c\<close>. The copy is another
  object and starts with the bindings of \<open>c\<close>. After any sequence of key additions,
  overwrites and removals on the copy, the dictionary at \<open>c\<close> has the key set and the
  values it had, and so has every other object that existed before the copy.
\<close>

theorem copy_isolation:
  assumes "AttrDict_copy h c = Some (h1, c')" and "mutate_all h1 c' ms = Inr h2"
  shows "c' \<noteq> c \<and> h1 ! c' = h ! c \<and> c < length h2 \<and> h2 ! c = h ! c \<and>
         dom (h2 ! c) = dom (h ! c) \<and> (\<forall>a. a < length h \<longrightarrow> h2 ! a = h ! a)"
proof -
  from assms(1) have c: "c < length h" and h1: "h1 = h @ [h ! c, h ! c]"
    and c': "c' = Suc (length h)"
    by (auto simp: AttrDict_copy_def split: if_splits)
  from mutate_all_other [OF assms(2)] have
    len: "length h2 = length h1" and oth: "\<And>b. b \<noteq> c' \<Longrightarrow> h2 ! b = h1 ! b"
    by auto
  have old: "h2 ! a = h ! a" if "a < length h" for a
    using that oth [of a] by (simp add: h1 c' nth_append)
  have "h1 ! c' = h ! c" by (simp add: h1 c' nth_append)
  with c c' len h1 old show ?thesis by auto
qed

theorem copy_isolation_witness:
  "\<exists>h1 c' h2.
     AttrDict_copy [[''a'' \<mapsto> (1::int)]] 0 = Some (h1, c') \<and>
     mutate_all h1 c' [SetItem ''b'' 2, SetItem ''a'' 3, DelItem ''a''] = Inr h2 \<and>
     c' \<noteq> 0 \<and> h2 ! 0 = [''a'' \<mapsto> 1] \<and> h2 ! c' = [''b'' \<mapsto> 2]"
proof -
  let ?d = "[''a'' \<mapsto> (1::int)]"
  have cp: "AttrDict_copy [?d] 0 = Some ([?d, ?d, ?d], 2)"
    by (simp add: AttrDict_copy_def)
  have 2: "(2::nat) = Suc (Suc 0)" by simp
  have mu: "mutate_all [?d, ?d, ?d] 2 [SetItem ''b'' 2, SetItem ''a'' 3, DelItem ''a'']
             = Inr [?d, ?d, [''b'' \<mapsto> 2]]"
    unfolding 2 by (auto simp: fun_upd_def)
  from copy_isolation [OF cp mu] show ?thesis
    using cp mu by (intro exI [of _ "[?d, ?d, ?d]"] exI [of _ 2] exI [of _ "[?d, ?d, [''b'' \<mapsto> 2]]"])
      (simp add: 2)
qed

section \<open>Category aggregation\<close>

lemma m1: "RE_YAML_match ''---\<newline>category: tech\<newline>categories: tech\<newline>---\<newline>Hi''
   = (Some ''\<newline>category: tech\<newline>categories: tech\<newline>'', ''\<newline>Hi'')"
  by code_simp

lemma m2: "RE_YAML_match ''---\<newline>---\<newline>body'' = (Some ''\<newline>'', ''\<newline>body'')"
  by code_simp

lemma m3: "RE_YAML_match ''---\<newline>layout: a\<newline>---\<newline>body''
   = (Some ''\<newline>layout: a\<newline>'', ''\<newline>body'')"
  by code_simp

lemma add_cats_strings:
  "\<exists>m'. add_cats m P (map VStr cs) = Inr m' \<and>
     (\<forall>c. m' (VStr c) =
        (if c \<in> set cs
         then Some ((case m (VStr c) of None \<Rightarrow> [] | Some ps \<Rightarrow> ps) @
                    replicate (count_list cs c) P)
         else m (VStr c)))"
proof (induction cs arbitrary: m)
  case Nil
  then show ?case by simp
next
  case (Cons c0 cs)
  let ?m1 = "m(VStr c0 \<mapsto> (case m (VStr c0) of None \<Rightarrow> [] | Some ps \<Rightarrow> ps) @ [P])"
  have s: "setdefault_append m (VStr c0) P = Inr ?m1"
    by (simp add: setdefault_append_def)
  from Cons.IH [of ?m1] obtain m' where
    a: "add_cats ?m1 P (map VStr cs) = Inr m'"
    and l: "\<And>c. m' (VStr c) =
        (if c \<in> set cs
         then Some ((case ?m1 (VStr c) of None \<Rightarrow> [] | Some ps \<Rightarrow> ps) @
                    replicate (count_list cs c) P)
         else ?m1 (VStr c))"
    by blast
  have "add_cats m P (map VStr (c0 # cs)) = Inr m'" using s a by simp
  moreover have "m' (VStr c) =
        (if c \<in> set (c0 # cs)
         then Some ((case m (VStr c) of None \<Rightarrow> [] | Some ps \<Rightarrow> ps) @
                    replicate (count_list (c0 # cs) c) P)
         else m (VStr c))" for c
    unfolding l [of c] by (auto simp: replicate_app_Cons_same count_list_0_iff)
  ultimately show ?case by blast
qed

lemma calc_loop_strings:
  assumes "\<forall>P\<in>set posts. post_categories P = VList (map VStr (f P))"
  shows "\<exists>m'. calc_loop m posts = Inr m' \<and>
     (\<forall>c. m' (VStr c) =
        (if \<exists>P\<in>set posts. c \<in> set (f P)
         then Some ((case m (VStr c) of None \<Rightarrow> [] | Some ps \<Rightarrow> ps) @
                    concat (map (\<lambda>P. replicate (count_list (f P) c) P) posts))
         else m (VStr c)))"
  using assms
proof (induction posts arbitrary: m)
  case Nil
  then show ?case by simp
next
  case (Cons P0 posts)
  have it: "iter_items (post_categories P0) = Inr (map VStr (f P0))"
    using Cons.prems by simp
  from add_cats_strings [of m P0 "f P0"] obtain m1 where
    a: "add_cats m P0 (map VStr (f P0)) = Inr m1"
    and l1: "\<And>c. m1 (VStr c) =
        (if c \<in> set (f P0)
         then Some ((case m (VStr c) of None \<Rightarrow> [] | Some ps \<Rightarrow> ps) @
                    replicate (count_list (f P0) c) P0)
         else m (VStr c))"
    by blast
  have rest: "\<forall>P\<in>set posts. post_categories P = VList (map VStr (f P))"
    using Cons.prems by simp
  from Cons.IH [OF rest, of m1] obtain m' where
    b: "calc_loop m1 posts = Inr m'"
    and l2: "\<And>c. m' (VStr c) =
        (if \<exists>P\<in>set posts. c \<in> set (f P)
         then Some ((case m1 (VStr c) of None \<Rightarrow> [] | Some ps \<Rightarrow> ps) @
                    concat (map (\<lambda>P. replicate (count_list (f P) c) P) posts))
         else m1 (VStr c))"
    by blast
  have none: "concat (map (\<lambda>P. replicate (count_list (f P) c) P) posts) = []"
    if "\<not> (\<exists>P\<in>set posts. c \<in> set (f P))" for c
    using that by (induction posts) (auto simp: count_list_0_iff)
  have "calc_loop m (P0 # posts) = Inr m'" using it a b by simp
  moreover have "m' (VStr c) =
        (if \<exists>P\<in>set (P0 # posts). c \<in> set (f P)
         then Some ((case m (VStr c) of None \<Rightarrow> [] | Some ps \<Rightarrow> ps) @
                    concat (map (\<lambda>P. replicate (count_list (f P) c) P) (P0 # posts)))
         else m (VStr c))" for c
    unfolding l2 [of c] l1 [of c] using none [of c]
    by (auto simp: count_list_0_iff)
  ultimately show ?case by blast
qed

lemma count_list_distinct: "distinct xs \<Longrightarrow> count_list xs c = (if c \<in> set xs then 1 else 0)"
  by (induction xs) auto

lemma concat_replicate_filter:
  "\<forall>P\<in>set posts. distinct (f P) \<Longrightarrow>
   concat (map (\<lambda>P. replicate (count_list (f P) c) P) posts) = filter (\<lambda>P. c \<in> set (f P)) posts"
  by (induction posts) (auto simp: count_list_distinct)

lemma Post_init_cats_value:
  assumes P: "Post_init E deploy fname ls c = Inr P"
    and T: "Template_init E deploy fname ls c = Inr T"
    and cat: "get_default (ctx_of T) ''category'' (VStr []) = VStr a"
             "get_default (ctx_of T) ''categories'' (VStr []) = VStr b"
  shows "post_categories P = VList (map VStr (normalize_cats (a @ '','' @ b)))"
proof -
  from Post_init_inv [OF P] T obtain yi mi di c' where
    sc: "set_categories ((ctx_of T)(VStr ''date'' \<mapsto> VDate yi mi di,
                VStr ''url'' \<mapsto> VStr (post_url (year P) (month P) (day P) (slug P)),
                VStr ''path'' \<mapsto> VStr (post_path (year P) (month P) (day P)))) = Inr c'"
    and tp: "template P = T\<lparr>ctx_of := c'\<rparr>"
    by auto
  let ?c1 = "(ctx_of T)(VStr ''date'' \<mapsto> VDate yi mi di,
                VStr ''url'' \<mapsto> VStr (post_url (year P) (month P) (day P) (slug P)),
                VStr ''path'' \<mapsto> VStr (post_path (year P) (month P) (day P)))"
  have g1: "get_default ?c1 ''category'' (VStr []) = VStr a"
    using cat(1) by (simp add: get_default_def)
  have g2: "get_default ?c1 ''categories'' (VStr []) = VStr b"
    using cat(2) by (simp add: get_default_def)
  from set_categories_lookup [OF g1 g2] sc have
    "c' (VStr ''categories'') = Some (VList (map VStr (normalize_cats (a @ '','' @ b))))"
    by auto
  then show ?thesis by (simp add: post_categories_def get_default_def tp)
qed

lemma Template_init_dup:
  "\<exists>T. Template_init dup_env deploy fname ls Map.empty = Inr T \<and>
       get_default (ctx_of T) ''category'' (VStr []) = VStr ''tech'' \<and>
       get_default (ctx_of T) ''categories'' (VStr []) = VStr ''tech''"
  by (simp add: Template_init_def read_yaml_def dup_env_def m1 get_default_def)

lemma normalize_dup: "normalize_cats ''tech,tech'' = [''tech'', ''tech'']"
  by (simp add: normalize_cats_def split_def strip_def is_space_def)

text \<open>
  C8, as amended. For posts whose \<open>categories\<close> are lists of strings (as construction
  leaves them), \<open>calc_categories\<close> maps each category name that occurs to the posts
  carrying it, in load order, each post once per occurrence of the name in its list; a
  name that no post carries is not a key. When no post lists a name twice, a name maps
  to exactly the posts carrying it, once each.
\<close>

theorem calc_categories_by_occurrence:
  assumes "\<forall>P\<in>set posts. post_categories P = VList (map VStr (f P))"
  shows "\<exists>m. calc_categories posts = Inr m \<and>
     (\<forall>c. m (VStr c) =
        (if \<exists>P\<in>set posts. c \<in> set (f P)
         then Some (concat (map (\<lambda>P. replicate (count_list (f P) c) P) posts))
         else None)) \<and>
     ((\<forall>P\<in>set posts. distinct (f P)) \<longrightarrow>
      (\<forall>c. m (VStr c) =
        (if \<exists>P\<in>set posts. c \<in> set (f P)
         then Some (filter (\<lambda>P. c \<in> set (f P)) posts)
         else None)))"
proof -
  from calc_loop_strings [OF assms, of Map.empty] obtain m where
    m: "calc_categories posts = Inr m"
    and l: "\<And>c. m (VStr c) =
        (if \<exists>P\<in>set posts. c \<in> set (f P)
         then Some (concat (map (\<lambda>P. replicate (count_list (f P) c) P) posts))
         else None)"
    by (auto simp: calc_categories_def)
  show ?thesis
    using m l concat_replicate_filter [of posts f] by (intro exI [of _ m]) simp
qed

text \<open>The scenario of the claim: \<open>tech, life\<close> on the first post, \<open>tech\<close> on the second.\<close>

theorem calc_categories_by_occurrence_witness:
  "\<exists>m. calc_categories [post_one, post_two] = Inr m \<and>
     m (VStr ''tech'') = Some [post_one, post_two] \<and>
     m (VStr ''life'') = Some [post_one] \<and>
     m (VStr ''misc'') = None"
proof -
  let ?f = "\<lambda>P. if slug P = ''one'' then [''tech'', ''life''] else [''tech'']"
  have h: "\<forall>P\<in>set [post_one, post_two]. post_categories P = VList (map VStr (?f P))"
    by (simp add: post_one_def post_two_def post_categories_def get_default_def)
  have s: "slug post_one = ''one''" "slug post_two = ''two''"
    by (simp_all add: post_one_def post_two_def)
  from calc_categories_by_occurrence [OF h] obtain m where
    m: "calc_categories [post_one, post_two] = Inr m"
    and l: "\<And>c. m (VStr c) =
        (if \<exists>P\<in>set [post_one, post_two]. c \<in> set (?f P)
         then Some (concat (map (\<lambda>P. replicate (count_list (?f P) c) P) [post_one, post_two]))
         else None)"
    by blast
  have "m (VStr ''tech'') = Some [post_one, post_two]" unfolding l by (simp add: s)
  moreover have "m (VStr ''life'') = Some [post_one]" unfolding l by (simp add: s)
  moreover have "m (VStr ''misc'') = None" unfolding l by (simp add: s)
  ultimately show ?thesis using m by blast
qed

text \<open>
  C8 as stated fails for a post with \<open>category: tech\<close> and \<open>categories: tech\<close>: its
  list is \<open>['tech', 'tech']\<close>, and it stands twice under \<open>tech\<close>.
\<close>

theorem calc_categories_repeats_post:
  "\<exists>P m. Post_init dup_env ''_deploy'' ''_posts/2024-03-05-hello.md'' Map.empty Map.empty = Inr P \<and>
     post_categories P = VList [VStr ''tech'', VStr ''tech''] \<and>
     calc_categories [P] = Inr m \<and>
     m (VStr ''tech'') = Some [P, P] \<and> m (VStr ''tech'') \<noteq> Some [P]"
proof -
  from Template_init_dup [of "''_deploy''" "''_posts/2024-03-05-hello.md''" Map.empty]
  obtain T where
    T: "Template_init dup_env ''_deploy'' ''_posts/2024-03-05-hello.md'' Map.empty Map.empty = Inr T"
    and g: "get_default (ctx_of T) ''category'' (VStr []) = VStr ''tech''"
           "get_default (ctx_of T) ''categories'' (VStr []) = VStr ''tech''"
    by blast
  have vd: "valid_date 2024 3 5" by (simp add: valid_date_def days_in_month_def)
  have "\<exists>P. Post_init dup_env ''_deploy'' ''_posts/2024-03-05-hello.md'' Map.empty Map.empty = Inr P"
    using Post_init_success [of dup_env "''_deploy''" "''_posts/2024-03-05-hello.md''"
        Map.empty Map.empty T "''2024''" "''03''" "''05''" "''hello''" 2024 3 5
        "''tech''" "''tech''", OF T]
    by (simp add: stem_hello dv2024 dv03 dv05 vd g) blast
  then obtain P where
    P: "Post_init dup_env ''_deploy'' ''_posts/2024-03-05-hello.md'' Map.empty Map.empty = Inr P"
    by blast
  have pc: "post_categories P = VList [VStr ''tech'', VStr ''tech'']"
    using Post_init_cats_value [OF P T g] by (simp add: normalize_dup)
  have "\<exists>m. calc_categories [P] = Inr m \<and> m (VStr ''tech'') = Some [P, P]"
    by (simp add: calc_categories_def pc setdefault_append_def)
  with P pc show ?thesis by auto
qed

section \<open>The metadata block\<close>

lemma marker_start:
  assumes "q \<in> set (marker_ends t p)"
  shows "take 3 (drop p t) = ''---'' \<and> p < length t \<and> t ! p = CHR ''-'' \<and> at_eol t q"
proof -
  from assms have m: "take 3 (drop p t) = ''---''" and e: "at_eol t q"
    by (auto simp: marker_ends_def split: if_splits)
  from m have ne: "drop p t \<noteq> []" by auto
  then have lt: "p < length t" by simp
  from m have "hd (drop p t) = CHR ''-''" by (cases "drop p t") auto
  with lt have "t ! p = CHR ''-''" by (simp add: hd_drop_conv_nth)
  with m lt e show ?thesis by simp
qed

lemma groups_yaml_nonempty:
  assumes "(q1, p2, q2) \<in> set (RE_YAML_groups t)"
  shows "q1 < p2 \<and> p2 < length t \<and> take 3 t = ''---''"
proof -
  from assms have a: "q1 \<in> set (marker_ends t 0)" and b: "q1 \<le> p2"
    and c: "q2 \<in> set (marker_ends t p2)"
    by (auto simp: RE_YAML_groups_def)
  from marker_start [OF a] have e: "at_eol t q1" and s: "take 3 t = ''---''" by auto
  from marker_start [OF c] have lt: "p2 < length t" and d: "t ! p2 = CHR ''-''" by auto
  have "q1 \<noteq> p2"
  proof
    assume "q1 = p2"
    with e lt d show False by (auto simp: at_eol_def)
  qed
  with b lt s show ?thesis by simp
qed

lemma match_Some:
  assumes "RE_YAML_match t = (Some y, body)"
  shows "y \<noteq> [] \<and> take 3 t = ''---'' \<and> (\<exists>pre. t = pre @ body)"
proof -
  from assms obtain q1 p2 q2 rest where
    g: "RE_YAML_groups t = (q1, p2, q2) # rest"
    and y: "y = take (p2 - q1) (drop q1 t)" and bd: "body = drop q2 t"
    by (auto simp: RE_YAML_match_def split: list.splits)
  then have "(q1, p2, q2) \<in> set (RE_YAML_groups t)" by simp
  from groups_yaml_nonempty [OF this] have "q1 < p2" "p2 < length t" "take 3 t = ''---''"
    by auto
  moreover from this y have "y \<noteq> []" by auto
  moreover have "t = take q2 t @ body" by (simp add: bd)
  ultimately show ?thesis by blast
qed

lemma match_no_marker:
  assumes "take 3 t \<noteq> ''---''"
  shows "RE_YAML_match t = (None, t)"
  using assms by (simp add: RE_YAML_match_def RE_YAML_groups_def marker_ends_def)

lemma match_None_body: "fst (RE_YAML_match t) = None \<Longrightarrow> RE_YAML_match t = (None, t)"
  by (auto simp: RE_YAML_match_def split: list.splits)

text \<open>
  What \<open>read_yaml\<close> does with the split of the pattern. When no block delimited by
  marker lines starts at the first character, as whenever the text does not begin with
  \<open>---\<close>, it merges nothing and keeps the whole text as body. When a block is
  present, the text begins with \<open>---\<close>, the inner text of the block is never empty and
  goes to the decoder, and the body is a suffix of the text: a failure of the decoder is
  raised, and a decoded mapping is merged into the context.
\<close>

lemma read_yaml_outcomes:
  assumes "read_file E fname = Inr text"
  shows "(take 3 text \<noteq> ''---'' \<longrightarrow> fst (RE_YAML_match text) = None) \<and>
         (fst (RE_YAML_match text) = None \<longrightarrow> read_yaml E fname c = Inr (c, text)) \<and>
         (\<forall>y body. RE_YAML_match text = (Some y, body) \<longrightarrow>
            y \<noteq> [] \<and> take 3 text = ''---'' \<and> (\<exists>pre. text = pre @ body) \<and>
            (\<forall>e. yaml_load E y = Inl e \<longrightarrow> read_yaml E fname c = Inl e) \<and>
            (\<forall>kvs. yaml_load E y = Inr (VDict kvs) \<longrightarrow>
               read_yaml E fname c = Inr (foldl (\<lambda>m (k, v). m(k \<mapsto> v)) c kvs, body)))"
proof (intro conjI allI impI)
  assume "take 3 text \<noteq> ''---''"
  then show "fst (RE_YAML_match text) = None" by (simp add: match_no_marker)
next
  assume "fst (RE_YAML_match text) = None"
  then have "RE_YAML_match text = (None, text)" by (rule match_None_body)
  then show "read_yaml E fname c = Inr (c, text)" using assms by (simp add: read_yaml_def)
next
  fix y body assume m: "RE_YAML_match text = (Some y, body)"
  from match_Some [OF m] show "y \<noteq> []" "take 3 text = ''---''" "\<exists>pre. text = pre @ body"
    by auto
next
  fix y body e assume m: "RE_YAML_match text = (Some y, body)" and l: "yaml_load E y = Inl e"
  from match_Some [OF m] have "y \<noteq> []" by simp
  then show "read_yaml E fname c = Inl e" using assms m l by (simp add: read_yaml_def)
next
  fix y body kvs assume m: "RE_YAML_match text = (Some y, body)"
    and l: "yaml_load E y = Inr (VDict kvs)"
  from match_Some [OF m] have "y \<noteq> []" by simp
  then show "read_yaml E fname c = Inr (foldl (\<lambda>m (k, v). m(k \<mapsto> v)) c kvs, body)"
    using assms m l by (simp add: read_yaml_def)
qed

text \<open>A text without block, and a block that decodes to one key.\<close>

lemma read_yaml_examples:
  "read_yaml plain_env ''index.html_'' Map.empty = Inr (Map.empty, ''Hi'') \<and>
   (\<exists>c. read_yaml meta_env ''index.html_'' Map.empty = Inr (c, ''\<newline>body'') \<and>
        c (VStr ''layout'') = Some (VStr ''a''))"
proof -
  have r1: "read_file plain_env ''index.html_'' = Inr ''Hi''" by (simp add: plain_env_def)
  have r2: "read_file meta_env ''index.html_'' = Inr ''---\<newline>layout: a\<newline>---\<newline>body''"
    by (simp add: meta_env_def)
  have y2: "yaml_load meta_env ''\<newline>layout: a\<newline>'' = Inr (VDict [(VStr ''layout'', VStr ''a'')])"
    by (simp add: meta_env_def)
  have a: "read_yaml plain_env ''index.html_'' Map.empty = Inr (Map.empty, ''Hi'')"
    using read_yaml_outcomes [OF r1, of Map.empty] by simp
  have b: "read_yaml meta_env ''index.html_'' Map.empty =
        Inr (foldl (\<lambda>m (k, v). m(k \<mapsto> v)) Map.empty [(VStr ''layout'', VStr ''a'')], ''\<newline>body'')"
    using read_yaml_outcomes [OF r2, of Map.empty] m3 y2 by blast
  show ?thesis using a b by simp
qed

text \<open>
  C2, at the input where the code departs from it. The text is an empty block, \<open>---\<close>
  directly followed by \<open>---\<close>, then the line \<open>body\<close>. The block takes part in the
  match and its inner text is one newline, so the test of \<open>read_yaml\<close> for an empty
  block does not fire; the decoder returns None for the blank document, and
  \<open>dict.update(None)\<close> raises TypeError. \<open>read_yaml\<close> has no (metadata, body)
  outcome, where the claim has empty metadata and the whole text as body.
\<close>

theorem read_yaml_blank_block:
  "read_file blank_env ''index.html_'' = Inr ''---\<newline>---\<newline>body'' \<and>
   RE_YAML_match ''---\<newline>---\<newline>body'' = (Some ''\<newline>'', ''\<newline>body'') \<and>
   yaml_load blank_env ''\<newline>'' = Inr VNone \<and>
   read_yaml blank_env ''index.html_'' Map.empty = Inl TypeError \<and>
   read_yaml blank_env ''index.html_'' Map.empty \<noteq> Inr (Map.empty, ''---\<newline>---\<newline>body'')"
  by (simp add: read_yaml_def blank_env_def m2)

end
